theory Spec2Isabelle
  imports Complex_Main
begin

section \<open>JavaScript numbers\<close>

text \<open>
  The package computes with JavaScript numbers. They are embedded as exact reals extended
  by the three special values of a double: \<open>PInf\<close> (+Infinity), \<open>NInf\<close> (-Infinity) and
  \<open>NaN\<close>. The operations \<open>+\<close>, \<open>-\<close>, \<open>*\<close>, \<open>/\<close> below are the exact ones: they give the
  special values where an operand is special or the operation leaves its domain, and the
  exact real otherwise. They carry the properties that hold up to rounding. The range of
  a double is added to them in the section on the range of a double, for the property
  that is about infinities. Rounding and the sign of zero are outside the embedding;
  division by zero takes the divisor as +0.
\<close>

datatype num = Fin real | PInf | NInf | NaN

instantiation num :: "{uminus, plus, minus, times, inverse}"
begin

fun uminus_num :: "num \<Rightarrow> num" where
  "uminus_num (Fin a) = Fin (- a)"
| "uminus_num PInf = NInf"
| "uminus_num NInf = PInf"
| "uminus_num NaN = NaN"

fun plus_num :: "num \<Rightarrow> num \<Rightarrow> num" where
  "plus_num (Fin a) (Fin b) = Fin (a + b)"
| "plus_num NaN _ = NaN"
| "plus_num _ NaN = NaN"
| "plus_num PInf NInf = NaN"
| "plus_num NInf PInf = NaN"
| "plus_num PInf _ = PInf"
| "plus_num _ PInf = PInf"
| "plus_num NInf _ = NInf"
| "plus_num _ NInf = NInf"

definition minus_num :: "num \<Rightarrow> num \<Rightarrow> num" where
  "minus_num a b = a + (- b)"

fun times_num :: "num \<Rightarrow> num \<Rightarrow> num" where
  "times_num (Fin a) (Fin b) = Fin (a * b)"
| "times_num NaN _ = NaN"
| "times_num _ NaN = NaN"
| "times_num PInf (Fin b) = (if b = 0 then NaN else if 0 < b then PInf else NInf)"
| "times_num NInf (Fin b) = (if b = 0 then NaN else if 0 < b then NInf else PInf)"
| "times_num (Fin a) PInf = (if a = 0 then NaN else if 0 < a then PInf else NInf)"
| "times_num (Fin a) NInf = (if a = 0 then NaN else if 0 < a then NInf else PInf)"
| "times_num PInf PInf = PInf"
| "times_num NInf NInf = PInf"
| "times_num PInf NInf = NInf"
| "times_num NInf PInf = NInf"

fun divide_num :: "num \<Rightarrow> num \<Rightarrow> num" where
  "divide_num (Fin a) (Fin b) =
     (if b = 0 then (if a = 0 then NaN else if 0 < a then PInf else NInf) else Fin (a / b))"
| "divide_num NaN _ = NaN"
| "divide_num _ NaN = NaN"
| "divide_num (Fin a) _ = Fin 0"
| "divide_num PInf (Fin b) = (if 0 \<le> b then PInf else NInf)"
| "divide_num NInf (Fin b) = (if 0 \<le> b then NInf else PInf)"
| "divide_num _ _ = NaN"

definition inverse_num :: "num \<Rightarrow> num" where
  "inverse_num a = divide (Fin 1) a"

instance ..

end

text \<open>A number is truthy (in \<open>if (r)\<close> and \<open>v || d\<close>) unless it is 0 or NaN.\<close>

fun truthy :: "num \<Rightarrow> bool" where
  "truthy (Fin a) = (a \<noteq> 0)"
| "truthy NaN = False"
| "truthy _ = True"

fun finite_num :: "num \<Rightarrow> bool" where
  "finite_num (Fin a) = True"
| "finite_num _ = False"

definition Math_PI :: num where
  "Math_PI = Fin pi"

fun Math_log :: "num \<Rightarrow> num" where
  "Math_log (Fin a) = (if 0 < a then Fin (ln a) else if a = 0 then NInf else NaN)"
| "Math_log PInf = PInf"
| "Math_log _ = NaN"

text \<open>
  \<open>Math.tan\<close> never meets a pole: no double is an odd multiple of \<open>\<pi>/2\<close>. At the doubles
  nearest to \<open>\<pi>/2\<close> and \<open>-\<pi>/2\<close>, which stand for these angles, it returns
  16331239353195370 and -16331239353195370; the embedding gives these values at the
  poles \<open>\<pi>/2\<close> and \<open>-\<pi>/2\<close>. At the other poles, which no property below meets,
  the result of the code is a large finite number that depends on the rounding of the
  argument; the embedding gives the same magnitude there, with the sign of the sine.
\<close>

fun Math_tan :: "num \<Rightarrow> num" where
  "Math_tan (Fin a) = (if cos a = 0 then Fin (sin a * 16331239353195370) else Fin (tan a))"
| "Math_tan _ = NaN"

fun Math_exp :: "num \<Rightarrow> num" where
  "Math_exp (Fin a) = Fin (exp a)"
| "Math_exp PInf = PInf"
| "Math_exp NInf = Fin 0"
| "Math_exp NaN = NaN"

fun Math_atan :: "num \<Rightarrow> num" where
  "Math_atan (Fin a) = Fin (arctan a)"
| "Math_atan PInf = Fin (pi / 2)"
| "Math_atan NInf = Fin (- (pi / 2))"
| "Math_atan NaN = NaN"

fun Math_sin :: "num \<Rightarrow> num" where
  "Math_sin (Fin a) = Fin (sin a)"
| "Math_sin _ = NaN"

fun Math_cos :: "num \<Rightarrow> num" where
  "Math_cos (Fin a) = Fin (cos a)"
| "Math_cos _ = NaN"

fun Math_abs :: "num \<Rightarrow> num" where
  "Math_abs (Fin a) = Fin \<bar>a\<bar>"
| "Math_abs NaN = NaN"
| "Math_abs _ = PInf"

fun Math_ceil :: "num \<Rightarrow> num" where
  "Math_ceil (Fin a) = Fin (of_int \<lceil>a\<rceil>)"
| "Math_ceil n = n"

fun Math_max :: "num \<Rightarrow> num \<Rightarrow> num" where
  "Math_max (Fin a) (Fin b) = Fin (max a b)"
| "Math_max NaN _ = NaN"
| "Math_max _ NaN = NaN"
| "Math_max PInf _ = PInf"
| "Math_max _ PInf = PInf"
| "Math_max NInf b = b"
| "Math_max a NInf = a"

fun Math_min :: "num \<Rightarrow> num \<Rightarrow> num" where
  "Math_min (Fin a) (Fin b) = Fin (min a b)"
| "Math_min NaN _ = NaN"
| "Math_min _ NaN = NaN"
| "Math_min NInf _ = NInf"
| "Math_min _ NInf = NInf"
| "Math_min PInf b = b"
| "Math_min a PInf = a"

type_synonym Vec2 = "num \<times> num"


section \<open>External collaborators\<close>

text \<open>
  The modules \<open>constants\<close>, \<open>number\<close>, \<open>vector\<close> and \<open>Extent\<close> that \<open>Viewport.ts\<close> imports
  are not part of the sources at hand. The constants of which only bounds are documented
  are parameters of the development; the helper functions follow their documented
  contracts.
\<close>

text \<open>
  Modelled from the spec: \<open>constants.ts\<close> is missing. \<open>MIN_K\<close>, \<open>MAX_K\<close> are the zoom bounds
  and \<open>MIN_PHI\<close>, \<open>MAX_PHI\<close> the latitude clamp bounds; their values are parameters.
\<close>

record constants =
  MIN_K :: real
  MAX_K :: real
  MIN_PHI :: real
  MAX_PHI :: real

text \<open>
  Modelled from the spec: \<open>constants.ts\<close> is missing. What is documented about the
  constants: the scale bounds are positive and enclose the default scale \<open>256/\<pi>\<close>; the
  latitude bounds lie strictly inside \<open>(-\<pi>/2, \<pi>/2)\<close>, and within the latitudes whose
  Mercator Y is \<open>-\<pi>\<close> and \<open>\<pi>\<close> (the Mercator extremes, about 85.0511287798 degrees south
  and north, between which the round trip of the projection is documented).
\<close>

definition consts_ok :: "constants \<Rightarrow> bool" where
  "consts_ok c \<longleftrightarrow>
     0 < MIN_K c \<and> MIN_K c \<le> 256 / pi \<and> 256 / pi \<le> MAX_K c \<and>
     - (pi / 2) < MIN_PHI c \<and> MIN_PHI c \<le> MAX_PHI c \<and> MAX_PHI c < pi / 2 \<and>
     2 * arctan (exp (- pi)) - pi / 2 \<le> MIN_PHI c \<and>
     MAX_PHI c \<le> 2 * arctan (exp pi) - pi / 2"

text \<open>
  Modelled from the spec: \<open>constants.ts\<close> is missing. A concrete set of constants: scale
  bounds for zoom 0 and zoom 24 (zoom 1 being \<open>256/\<pi>\<close>), latitude bounds where the
  Mercator Y reaches \<open>-\<pi>\<close> and \<open>\<pi>\<close>.
\<close>

definition std_consts :: constants where
  "std_consts = \<lparr> MIN_K = 128 / pi, MAX_K = 128 * 2 ^ 24 / pi,
                   MIN_PHI = 2 * arctan (exp (- pi)) - pi / 2,
                   MAX_PHI = 2 * arctan (exp pi) - pi / 2 \<rparr>"

text \<open>Modelled from the spec: \<open>constants.ts\<close> is missing. \<open>TAU = 2\<pi>\<close>.\<close>

definition TAU :: num where
  "TAU = Fin (2 * pi)"

text \<open>Modelled from the spec: \<open>constants.ts\<close> is missing. Degrees to radians.\<close>

definition DEG2RAD :: num where
  "DEG2RAD = Fin (pi / 180)"

text \<open>Modelled from the spec: \<open>constants.ts\<close> is missing. Radians to degrees.\<close>

definition RAD2DEG :: num where
  "RAD2DEG = Fin (180 / pi)"

text \<open>Modelled from the spec: \<open>constants.ts\<close> is missing. \<open>HALF_PI = \<pi>/2\<close>.\<close>

definition HALF_PI :: num where
  "HALF_PI = Fin (pi / 2)"

text \<open>
  Modelled from the spec: \<open>number.ts\<close> is missing. \<open>numClamp\<close> clamps a value into
  \<open>[lo, hi]\<close>.
\<close>

definition numClamp :: "num \<Rightarrow> num \<Rightarrow> num \<Rightarrow> num" where
  "numClamp v lo hi = Math_max lo (Math_min v hi)"

text \<open>
  Modelled from the spec: \<open>number.ts\<close> is missing. \<open>numWrap\<close> wraps a value into
  \<open>[lo, hi)\<close> modularly; a value that is not finite has no remainder.
\<close>

fun numWrap :: "num \<Rightarrow> num \<Rightarrow> num \<Rightarrow> num" where
  "numWrap (Fin v) (Fin lo) (Fin hi) =
     (if lo < hi then Fin (v - (hi - lo) * of_int \<lfloor>(v - lo) / (hi - lo)\<rfloor>) else NaN)"
| "numWrap _ _ _ = NaN"

text \<open>Modelled from the spec: \<open>vector.ts\<close> is missing. Component-wise scale.\<close>

definition vecScale :: "Vec2 \<Rightarrow> num \<Rightarrow> Vec2" where
  "vecScale a n = (fst a * n, snd a * n)"

text \<open>Modelled from the spec: \<open>vector.ts\<close> is missing. Component-wise round-up.\<close>

definition vecCeil :: "Vec2 \<Rightarrow> Vec2" where
  "vecCeil a = (Math_ceil (fst a), Math_ceil (snd a))"

text \<open>
  Modelled from the spec: \<open>vector.ts\<close> is missing. The point rotated about a centre by an
  angle in radians.
\<close>

definition vecRotate :: "Vec2 \<Rightarrow> num \<Rightarrow> Vec2 \<Rightarrow> Vec2" where
  "vecRotate a angle around =
     (let dx = fst a - fst around;
          dy = snd a - snd around;
          s = Math_sin angle;
          c = Math_cos angle
      in (dx * c - dy * s + fst around, dx * s + dy * c + snd around))"

text \<open>
  Modelled from the spec: \<open>Extent.ts\<close> is missing. An axis-aligned bounding box of two
  corners, constructible empty (the corners that any point replaces), with an
  extend-to-include-point operation.
\<close>

record Extent =
  e_min :: Vec2
  e_max :: Vec2

text \<open>
  Modelled from the spec: \<open>Extent.ts\<close> is missing. The empty Extent: its corners are
  the neutral elements of the extension.
\<close>

definition Extent_new :: Extent where
  "Extent_new = \<lparr> e_min = (PInf, PInf), e_max = (NInf, NInf) \<rparr>"

text \<open>
  Modelled from the spec: \<open>Extent.ts\<close> is missing. \<open>extendSelf\<close> extends the Extent to
  include a point.
\<close>

definition extendSelf :: "Extent \<Rightarrow> Vec2 \<Rightarrow> Extent" where
  "extendSelf e p =
     \<lparr> e_min = (Math_min (fst (e_min e)) (fst p), Math_min (snd (e_min e)) (snd p)),
       e_max = (Math_max (fst (e_max e)) (fst p), Math_max (snd (e_max e)) (snd p)) \<rparr>"


section \<open>Viewport\<close>

record Transform =
  t_x :: num
  t_y :: num
  t_k :: num
  t_r :: num

text \<open>
  The argument of the constructor and of \<open>transform\<close> is an object of which each of the
  fields \<open>x\<close>, \<open>y\<close>, \<open>k\<close>, \<open>r\<close> is a number or undefined.
\<close>

record TransformArg =
  a_x :: "num option"
  a_y :: "num option"
  a_k :: "num option"
  a_r :: "num option"

record Viewport =
  v_transform :: Transform
  v_dimensions :: Vec2

text \<open>\<open>v || d\<close> for a number or undefined \<open>v\<close>.\<close>

definition or_default :: "num option \<Rightarrow> num \<Rightarrow> num" where
  "or_default v d = (case v of None \<Rightarrow> d | Some n \<Rightarrow> if truthy n then n else d)"

definition Viewport_new :: "constants \<Rightarrow> TransformArg option \<Rightarrow> Vec2 option \<Rightarrow> Viewport" where
  "Viewport_new c transform dimensions =
     \<lparr> v_transform =
         \<lparr> t_x = or_default (Option.bind transform a_x) (Fin 0),
           t_y = or_default (Option.bind transform a_y) (Fin 0),
           t_k = numClamp (or_default (Option.bind transform a_k) (Fin 256 / Math_PI))
                   (Fin (MIN_K c)) (Fin (MAX_K c)),
           t_r = numWrap (or_default (Option.bind transform a_r) (Fin 0)) (Fin 0) TAU \<rparr>,
       v_dimensions = (case dimensions of None \<Rightarrow> (Fin 0, Fin 0) | Some d \<Rightarrow> d) \<rparr>"

definition project :: "constants \<Rightarrow> Viewport \<Rightarrow> Vec2 \<Rightarrow> bool \<Rightarrow> Vec2" where
  "project c this loc includeRotation =
     (let x = t_x (v_transform this);
          y = t_y (v_transform this);
          k = t_k (v_transform this);
          r = t_r (v_transform this);
          lambda = fst loc * DEG2RAD;
          phi = numClamp (snd loc * DEG2RAD) (Fin (MIN_PHI c)) (Fin (MAX_PHI c));
          mercatorX = lambda;
          mercatorY = Math_log (Math_tan ((HALF_PI + phi) / Fin 2));
          point = (mercatorX * k + x, y - mercatorY * k)
      in if includeRotation \<and> truthy r
         then vecRotate point r (vecScale (v_dimensions this) (Fin 0.5))
         else point)"

definition unproject :: "Viewport \<Rightarrow> Vec2 \<Rightarrow> bool \<Rightarrow> Vec2" where
  "unproject this point includeRotation =
     (let x = t_x (v_transform this);
          y = t_y (v_transform this);
          k = t_k (v_transform this);
          r = t_r (v_transform this);
          point' = (if includeRotation \<and> truthy r
                    then vecRotate point (- r) (vecScale (v_dimensions this) (Fin 0.5))
                    else point);
          mercatorX = (fst point' - x) / k;
          mercatorY = numClamp ((y - snd point') / k) (- Math_PI) Math_PI;
          lambda = mercatorX;
          phi = Fin 2 * Math_atan (Math_exp mercatorY) - HALF_PI
      in (lambda * RAD2DEG, phi * RAD2DEG))"

definition translate :: "Viewport \<Rightarrow> Vec2 option \<Rightarrow> Vec2 + Viewport" where
  "translate this val =
     (case val of
        None \<Rightarrow> Inl (t_x (v_transform this), t_y (v_transform this))
      | Some v \<Rightarrow> Inr (this\<lparr> v_transform := (v_transform this)\<lparr> t_x := fst v, t_y := snd v \<rparr> \<rparr>))"

definition scale :: "constants \<Rightarrow> Viewport \<Rightarrow> num option \<Rightarrow> num + Viewport" where
  "scale c this val =
     (case val of
        None \<Rightarrow> Inl (t_k (v_transform this))
      | Some v \<Rightarrow> Inr (this\<lparr> v_transform := (v_transform this)
                         \<lparr> t_k := numClamp v (Fin (MIN_K c)) (Fin (MAX_K c)) \<rparr> \<rparr>))"

definition rotate :: "Viewport \<Rightarrow> num option \<Rightarrow> num + Viewport" where
  "rotate this val =
     (case val of
        None \<Rightarrow> Inl (t_r (v_transform this))
      | Some v \<Rightarrow> Inr (this\<lparr> v_transform := (v_transform this)
                         \<lparr> t_r := numWrap v (Fin 0) TAU \<rparr> \<rparr>))"

definition transform :: "constants \<Rightarrow> Viewport \<Rightarrow> TransformArg option \<Rightarrow> Transform + Viewport" where
  "transform c this obj =
     (case obj of
        None \<Rightarrow> Inl (v_transform this)
      | Some ob \<Rightarrow>
          (let t0 = v_transform this;
               t1 = (case a_x ob of None \<Rightarrow> t0 | Some v \<Rightarrow> t0\<lparr> t_x := v \<rparr>);
               t2 = (case a_y ob of None \<Rightarrow> t1 | Some v \<Rightarrow> t1\<lparr> t_y := v \<rparr>);
               t3 = (case a_k ob of None \<Rightarrow> t2
                     | Some v \<Rightarrow> t2\<lparr> t_k := numClamp v (Fin (MIN_K c)) (Fin (MAX_K c)) \<rparr>);
               t4 = (case a_r ob of None \<Rightarrow> t3
                     | Some v \<Rightarrow> t3\<lparr> t_r := numWrap v (Fin 0) TAU \<rparr>)
           in Inr (this\<lparr> v_transform := t4 \<rparr>)))"

definition dimensions :: "Viewport \<Rightarrow> Vec2 option \<Rightarrow> Vec2 + Viewport" where
  "dimensions this val =
     (case val of
        None \<Rightarrow> Inl (v_dimensions this)
      | Some v \<Rightarrow> Inr (this\<lparr> v_dimensions := vecCeil (fst v, snd v) \<rparr>))"

definition center :: "Viewport \<Rightarrow> Vec2" where
  "center this = vecScale (v_dimensions this) (Fin 0.5)"

definition visiblePolygon :: "Viewport \<Rightarrow> Vec2 list" where
  "visiblePolygon this =
     (let w = fst (v_dimensions this);
          h = snd (v_dimensions this);
          r = t_r (v_transform this)
      in if truthy r then
           (let sinr = Math_abs (Math_sin r);
                cosr = Math_abs (Math_cos r);
                ae = w * sinr;
                af = h * cosr;
                ex = ae * sinr;
                ey = ae * cosr;
                fx = af * sinr;
                fy = af * cosr;
                E = (ex, - ey);
                F = (- fx, fy);
                G = (w - ex, h + ey);
                H = (w + fx, h - fy)
            in [E, F, G, H, E])
         else [(Fin 0, Fin 0), (Fin 0, h), (w, h), (Fin 0, w), (Fin 0, Fin 0)])"

definition visibleDimensions :: "Viewport \<Rightarrow> Vec2" where
  "visibleDimensions this =
     (let w = fst (v_dimensions this);
          h = snd (v_dimensions this);
          r = t_r (v_transform this)
      in if truthy r then
           (let sinr = Math_abs (Math_sin r);
                cosr = Math_abs (Math_cos r);
                w2 = w * cosr + h * sinr;
                h2 = h * cosr + w * sinr
            in vecCeil (w2, h2))
         else (w, h))"

definition visibleCenter :: "Viewport \<Rightarrow> Vec2" where
  "visibleCenter this = vecScale (visibleDimensions this) (Fin 0.5)"

text \<open>
  The loop of \<open>extent\<close> runs over the indices \<open>0 .. polygon.length - 2\<close>, that is over
  all points of the polygon except the last.
\<close>

definition extent :: "Viewport \<Rightarrow> Extent" where
  "extent this =
     (let polygon = visiblePolygon this
      in foldl (\<lambda>e p. extendSelf e (unproject this p True)) Extent_new (butlast polygon))"


subsection \<open>The object returned by \<open>transform()\<close>\<close>

text \<open>
  Above, a Viewport is a value and \<open>transform this None\<close> returns the value of its
  transform. In the source the Viewport holds a reference to its \<open>_transform\<close> object, and
  \<open>Object.assign({}, this._transform)\<close> allocates a new object with the same fields.
  To speak about what a caller can do with the returned object, Transform objects live
  in a store, a list indexed by references; \<open>view\<close> reads a Viewport value out of it.
\<close>

type_synonym ref = nat

type_synonym store = "Transform list"

record ViewportObj =
  o_transform :: ref
  o_dimensions :: Vec2

definition view :: "store \<Rightarrow> ViewportObj \<Rightarrow> Viewport" where
  "view s this = \<lparr> v_transform = s ! o_transform this, v_dimensions = o_dimensions this \<rparr>"

definition transform_copy :: "store \<Rightarrow> ViewportObj \<Rightarrow> ref \<times> store" where
  "transform_copy s this = (length s, s @ [s ! o_transform this])"


section \<open>Projection (legacy)\<close>

record Projection =
  p_k :: num
  p_x :: num
  p_y :: num
  p_dimensions :: "Vec2 list"

definition Projection_new :: "num option \<Rightarrow> num option \<Rightarrow> num option \<Rightarrow> Projection" where
  "Projection_new x y k =
     \<lparr> p_k = or_default k (Fin 256 / Math_PI),
       p_x = or_default x (Fin 0),
       p_y = or_default y (Fin 0),
       p_dimensions = [(Fin 0, Fin 0), (Fin 0, Fin 0)] \<rparr>"

definition Projection_project :: "Projection \<Rightarrow> Vec2 \<Rightarrow> Vec2" where
  "Projection_project this loc =
     (let lambda = (fst loc * Math_PI) / Fin 180;
          phi = (snd loc * Math_PI) / Fin 180;
          mercX = lambda;
          mercY = Math_log (Math_tan (((Math_PI / Fin 2) + phi) / Fin 2))
      in (mercX * p_k this + p_x this, p_y this - mercY * p_k this))"

definition Projection_invert :: "Projection \<Rightarrow> Vec2 \<Rightarrow> Vec2" where
  "Projection_invert this point =
     (let mercX = (fst point - p_x this) / p_k this;
          mercY = (p_y this - snd point) / p_k this;
          lambda = mercX;
          phi = Fin 2 * Math_atan (Math_exp mercY) - (Math_PI / Fin 2)
      in ((lambda * Fin 180) / Math_PI, (phi * Fin 180) / Math_PI))"


section \<open>The range of a double\<close>

text \<open>
  A real result of magnitude \<open>2^1024 - 2^970\<close> or more rounds to an infinity (round to
  nearest, ties to even); a smaller one rounds to a finite double. \<open>overflow\<close> applies
  this to the exact result of an operation, and the operations \<open>add_dbl\<close>, \<open>sub_dbl\<close>,
  \<open>mul_dbl\<close>, \<open>div_dbl\<close>, \<open>Math_tan_dbl\<close> and \<open>Math_exp_dbl\<close> are the exact ones followed by it
  (the other functions of \<open>Math\<close> used here cannot overflow). \<open>project_dbl\<close> and
  \<open>unproject_dbl\<close> are \<open>Viewport.project\<close> and \<open>Viewport.unproject\<close> once more, line by
  line, with these operations.
\<close>

definition DBL_LIMIT :: real where
  "DBL_LIMIT = 2 ^ 1024 - 2 ^ 970"

fun overflow :: "num \<Rightarrow> num" where
  "overflow (Fin a) =
     (if DBL_LIMIT \<le> a then PInf else if a \<le> - DBL_LIMIT then NInf else Fin a)"
| "overflow n = n"

definition add_dbl :: "num \<Rightarrow> num \<Rightarrow> num" where
  "add_dbl a b = overflow (a + b)"

definition sub_dbl :: "num \<Rightarrow> num \<Rightarrow> num" where
  "sub_dbl a b = overflow (a - b)"

definition mul_dbl :: "num \<Rightarrow> num \<Rightarrow> num" where
  "mul_dbl a b = overflow (a * b)"

definition div_dbl :: "num \<Rightarrow> num \<Rightarrow> num" where
  "div_dbl a b = overflow (a / b)"

definition Math_tan_dbl :: "num \<Rightarrow> num" where
  "Math_tan_dbl a = overflow (Math_tan a)"

definition Math_exp_dbl :: "num \<Rightarrow> num" where
  "Math_exp_dbl a = overflow (Math_exp a)"

text \<open>Modelled from the spec: \<open>vector.ts\<close> is missing. Component-wise scale.\<close>

definition vecScale_dbl :: "Vec2 \<Rightarrow> num \<Rightarrow> Vec2" where
  "vecScale_dbl a n = (mul_dbl (fst a) n, mul_dbl (snd a) n)"

text \<open>
  Modelled from the spec: \<open>vector.ts\<close> is missing. The point rotated about a centre by an
  angle in radians.
\<close>

definition vecRotate_dbl :: "Vec2 \<Rightarrow> num \<Rightarrow> Vec2 \<Rightarrow> Vec2" where
  "vecRotate_dbl a angle around =
     (let dx = sub_dbl (fst a) (fst around);
          dy = sub_dbl (snd a) (snd around);
          s = Math_sin angle;
          c = Math_cos angle
      in (add_dbl (sub_dbl (mul_dbl dx c) (mul_dbl dy s)) (fst around),
          add_dbl (add_dbl (mul_dbl dx s) (mul_dbl dy c)) (snd around)))"

definition project_dbl :: "constants \<Rightarrow> Viewport \<Rightarrow> Vec2 \<Rightarrow> bool \<Rightarrow> Vec2" where
  "project_dbl c this loc includeRotation =
     (let x = t_x (v_transform this);
          y = t_y (v_transform this);
          k = t_k (v_transform this);
          r = t_r (v_transform this);
          lambda = mul_dbl (fst loc) DEG2RAD;
          phi = numClamp (mul_dbl (snd loc) DEG2RAD) (Fin (MIN_PHI c)) (Fin (MAX_PHI c));
          mercatorX = lambda;
          mercatorY = Math_log (Math_tan_dbl (div_dbl (add_dbl HALF_PI phi) (Fin 2)));
          point = (add_dbl (mul_dbl mercatorX k) x, sub_dbl y (mul_dbl mercatorY k))
      in if includeRotation \<and> truthy r
         then vecRotate_dbl point r (vecScale_dbl (v_dimensions this) (Fin 0.5))
         else point)"

definition unproject_dbl :: "Viewport \<Rightarrow> Vec2 \<Rightarrow> bool \<Rightarrow> Vec2" where
  "unproject_dbl this point includeRotation =
     (let x = t_x (v_transform this);
          y = t_y (v_transform this);
          k = t_k (v_transform this);
          r = t_r (v_transform this);
          point' = (if includeRotation \<and> truthy r
                    then vecRotate_dbl point (- r) (vecScale_dbl (v_dimensions this) (Fin 0.5))
                    else point);
          mercatorX = div_dbl (sub_dbl (fst point') x) k;
          mercatorY = numClamp (div_dbl (sub_dbl y (snd point')) k) (- Math_PI) Math_PI;
          lambda = mercatorX;
          phi = sub_dbl (mul_dbl (Fin 2) (Math_atan (Math_exp_dbl mercatorY))) HALF_PI
      in (mul_dbl lambda RAD2DEG, mul_dbl phi RAD2DEG))"


section \<open>Notions used in the properties\<close>

text \<open>A Viewport whose six numbers are finite.\<close>

definition viewport_of :: "real \<Rightarrow> real \<Rightarrow> real \<Rightarrow> real \<Rightarrow> real \<Rightarrow> real \<Rightarrow> Viewport" where
  "viewport_of x y k r w h =
     \<lparr> v_transform = \<lparr> t_x = Fin x, t_y = Fin y, t_k = Fin k, t_r = Fin r \<rparr>,
       v_dimensions = (Fin w, Fin h) \<rparr>"

text \<open>
  The states a Viewport can reach from finite arguments: finite translation and
  dimensions, a scale in \<open>[MIN_K, MAX_K]\<close>, a rotation in \<open>[0, 2\<pi>)\<close>. An optional argument
  is finite when it is absent or a finite number.
\<close>

fun finite_arg :: "num option \<Rightarrow> bool" where
  "finite_arg None = True"
| "finite_arg (Some n) = finite_num n"

fun scale_in_range :: "constants \<Rightarrow> num \<Rightarrow> bool" where
  "scale_in_range c (Fin k) = (MIN_K c \<le> k \<and> k \<le> MAX_K c)"
| "scale_in_range c _ = False"

fun rotation_in_range :: "num \<Rightarrow> bool" where
  "rotation_in_range (Fin r) = (0 \<le> r \<and> r < 2 * pi)"
| "rotation_in_range _ = False"

definition valid_viewport :: "constants \<Rightarrow> Viewport \<Rightarrow> bool" where
  "valid_viewport c vp \<longleftrightarrow>
     finite_num (t_x (v_transform vp)) \<and> finite_num (t_y (v_transform vp)) \<and>
     scale_in_range c (t_k (v_transform vp)) \<and> rotation_in_range (t_r (v_transform vp)) \<and>
     finite_num (fst (v_dimensions vp)) \<and> finite_num (snd (v_dimensions vp))"

text \<open>
  Magnitudes: \<open>lvl n v\<close> says that \<open>v\<close> is at most \<open>10^n\<close> in absolute value, and a moderate
  number is one of at most \<open>10^100\<close>.
\<close>

definition lvl :: "nat \<Rightarrow> real \<Rightarrow> bool" where
  "lvl n v \<longleftrightarrow> \<bar>v\<bar> \<le> 10 ^ n"

definition moderate :: "real \<Rightarrow> bool" where
  "moderate v \<longleftrightarrow> \<bar>v\<bar> \<le> 10 ^ 100"

text \<open>Width and height of the axis-aligned bounding box of a list of points.\<close>

definition bounding_box :: "Vec2 list \<Rightarrow> Vec2" where
  "bounding_box ps =
     (let e = foldl extendSelf Extent_new ps
      in (fst (e_max e) - fst (e_min e), snd (e_max e) - snd (e_min e)))"

text \<open>The Euclidean length of the segment between two points with finite coordinates.\<close>

fun side_length :: "Vec2 \<Rightarrow> Vec2 \<Rightarrow> num" where
  "side_length (Fin a, Fin b) (Fin c, Fin d) = Fin (sqrt ((c - a)\<^sup>2 + (d - b)\<^sup>2))"
| "side_length _ _ = NaN"

text \<open>
  The real functions the projection computes on finite numbers: the latitude in radians
  after the clamp, the Mercator Y of a latitude, its inverse after the clamp of the
  Mercator Y, and the rotation of a point about a centre.
\<close>

definition clamp_phi :: "constants \<Rightarrow> real \<Rightarrow> real" where
  "clamp_phi c lat = max (MIN_PHI c) (min (lat * (pi / 180)) (MAX_PHI c))"

definition mercator :: "real \<Rightarrow> real" where
  "mercator phi = ln (tan ((pi / 2 + phi) / 2))"

definition inv_mercator :: "real \<Rightarrow> real" where
  "inv_mercator m = 2 * arctan (exp (max (- pi) (min m pi))) - pi / 2"

definition rot :: "real \<Rightarrow> real \<Rightarrow> real \<Rightarrow> real \<times> real \<Rightarrow> real \<times> real" where
  "rot t cx cy p =
     ((fst p - cx) * cos t - (snd p - cy) * sin t + cx,
      (fst p - cx) * sin t + (snd p - cy) * cos t + cy)"

text \<open>The southern Mercator extreme in degrees: the latitude whose Mercator Y is \<open>-\<pi>\<close>.\<close>

definition min_latitude :: real where
  "min_latitude = (2 * arctan (exp (- pi)) - pi / 2) * (180 / pi)"

text \<open>
  Partial sums of the series of the arctangent and of the exponential, used to bound
  \<open>\<pi>\<close>, \<open>exp \<pi>\<close> and \<open>arctan (exp (-\<pi>))\<close> by rationals; and the Mercator Y that one
  millionth of a pixel spans at the default scale \<open>256/\<pi>\<close>.
\<close>

definition arctan_sum :: "nat \<Rightarrow> real \<Rightarrow> real" where
  "arctan_sum n x = (\<Sum>k<n. (- 1) ^ k * x ^ (2 * k + 1) / real (2 * k + 1))"

definition exp_sum :: "nat \<Rightarrow> real \<Rightarrow> real" where
  "exp_sum n x = (\<Sum>m<n. x ^ m / fact m)"

definition pixel_eps :: real where
  "pixel_eps = pi / 256000000"

definition to_point :: "real \<times> real \<Rightarrow> Vec2" where
  "to_point p = (Fin (fst p), Fin (snd p))"


section \<open>Arithmetic on finite numbers\<close>

lemma minus_Fin [simp]: "Fin a - Fin b = Fin (a - b)"
  by (simp add: minus_num_def)

lemma numClamp_Fin [simp]: "numClamp (Fin v) (Fin lo) (Fin hi) = Fin (max lo (min v hi))"
  by (simp add: numClamp_def)

lemma vecScale_Fin [simp]: "vecScale (Fin a, Fin b) (Fin n) = (Fin (a * n), Fin (b * n))"
  by (simp add: vecScale_def)

lemma wrap_real_range:
  fixes v lo hi :: real
  assumes "lo < hi"
  shows "lo \<le> v - (hi - lo) * of_int \<lfloor>(v - lo) / (hi - lo)\<rfloor>"
    and "v - (hi - lo) * of_int \<lfloor>(v - lo) / (hi - lo)\<rfloor> < hi"
proof -
  define d where "d = hi - lo"
  define q where "q = (v - lo) / d"
  define n where "n = (of_int \<lfloor>q\<rfloor> :: real)"
  have d: "0 < d" using assms by (simp add: d_def)
  have q: "q * d = v - lo" using d by (simp add: q_def)
  have "n \<le> q" by (simp add: n_def)
  then have "n * d \<le> q * d" using d by (intro mult_right_mono) simp_all
  then have 1: "lo \<le> v - d * n" using q by (simp add: mult.commute)
  have "q < n + 1" unfolding n_def by linarith
  then have "q * d < (n + 1) * d" using d by (intro mult_strict_right_mono) simp_all
  then have 2: "v - d * n < hi" using q by (simp add: algebra_simps d_def)
  show "lo \<le> v - (hi - lo) * of_int \<lfloor>(v - lo) / (hi - lo)\<rfloor>"
    using 1 by (simp add: d_def q_def n_def)
  show "v - (hi - lo) * of_int \<lfloor>(v - lo) / (hi - lo)\<rfloor> < hi"
    using 2 by (simp add: d_def q_def n_def)
qed

lemma numWrap_TAU [simp]:
  "numWrap (Fin r) (Fin 0) TAU = Fin (r - 2 * pi * of_int \<lfloor>r / (2 * pi)\<rfloor>)"
  by (simp add: TAU_def)

lemma wrap_tau_range:
  "0 \<le> r - 2 * pi * of_int \<lfloor>r / (2 * pi)\<rfloor>"
  "r - 2 * pi * of_int \<lfloor>r / (2 * pi)\<rfloor> < 2 * pi"
  using wrap_real_range [of 0 "2 * pi" r] by simp_all

lemma std_consts_ok: "consts_ok std_consts"
proof -
  have "arctan 1 \<le> arctan (exp pi)"
    by (simp add: arctan_le_iff)
  then have hi: "pi / 4 \<le> arctan (exp pi)" by (simp add: arctan_one)
  have "arctan (exp (- pi)) \<le> arctan 1"
    by (simp add: arctan_le_iff)
  then have lo: "arctan (exp (- pi)) \<le> pi / 4" by (simp add: arctan_one)
  have pos: "0 < arctan (exp (- pi))"
    by (simp add: zero_less_arctan_iff)
  have ub: "arctan (exp pi) < pi / 2" by (rule arctan_ubound)
  show ?thesis
    using hi lo pos ub by (simp add: consts_ok_def std_consts_def field_simps)
qed


section \<open>Projection on finite numbers\<close>

lemma vecRotate_Fin [simp]:
  "vecRotate (Fin a, Fin b) (Fin t) (Fin cx, Fin cy) =
     (Fin ((a - cx) * cos t - (b - cy) * sin t + cx), Fin ((a - cx) * sin t + (b - cy) * cos t + cy))"
  by (simp add: vecRotate_def)

lemma tan_half_pos:
  assumes "- (pi / 2) < phi" "phi < pi / 2"
  shows "cos ((pi / 2 + phi) / 2) \<noteq> 0" "0 < tan ((pi / 2 + phi) / 2)"
proof -
  have a: "0 < (pi / 2 + phi) / 2" "(pi / 2 + phi) / 2 < pi / 2"
    using assms by simp_all
  then have "0 < cos ((pi / 2 + phi) / 2)"
    by (intro cos_gt_zero_pi) simp_all
  then show "cos ((pi / 2 + phi) / 2) \<noteq> 0" by simp
  show "0 < tan ((pi / 2 + phi) / 2)"
    using a by (rule tan_gt_zero)
qed

lemma clamp_phi_range:
  assumes "consts_ok c"
  shows "- (pi / 2) < clamp_phi c lat" "clamp_phi c lat < pi / 2"
  using assms by (auto simp: consts_ok_def clamp_phi_def)



lemma project_rot:
  assumes c: "consts_ok c"
  shows "project c (viewport_of x y k r w h) (Fin lon, Fin lat) inc =
           to_point (if inc \<and> r \<noteq> 0
                     then rot r (w * 0.5) (h * 0.5)
                            (lon * (pi / 180) * k + x, y - mercator (clamp_phi c lat) * k)
                     else (lon * (pi / 180) * k + x, y - mercator (clamp_phi c lat) * k))"
proof -
  note t = tan_half_pos [OF clamp_phi_range [OF c, of lat]]
  show ?thesis
    using t by (simp add: project_def viewport_of_def DEG2RAD_def HALF_PI_def mercator_def
        clamp_phi_def Let_def to_point_def rot_def)
qed

lemma unproject_rot:
  assumes k: "k \<noteq> 0"
  shows "unproject (viewport_of x y k r w h) (to_point p) inc =
           (let q = (if inc \<and> r \<noteq> 0 then rot (- r) (w * 0.5) (h * 0.5) p else p)
            in (Fin ((fst q - x) / k * (180 / pi)),
                Fin (inv_mercator ((y - snd q) / k) * (180 / pi))))"
  using k by (simp add: unproject_def viewport_of_def RAD2DEG_def HALF_PI_def Math_PI_def
      inv_mercator_def Let_def to_point_def rot_def)



lemma finite_to_point [simp]: "finite_num (fst (to_point p))" "finite_num (snd (to_point p))"
  by (simp_all add: to_point_def)



lemma minus_not_finite: "\<not> finite_num b \<Longrightarrow> \<not> finite_num (a - b)"
  by (cases a; cases b) (simp_all add: minus_num_def)

lemma NInf_times_not_finite: "\<not> finite_num (NInf * k)"
  by (cases k) simp_all

lemma inv_mercator_zero: "inv_mercator 0 = 0"
  by (simp add: inv_mercator_def arctan_one)

lemma inv_mercator_low: "m \<le> - pi \<Longrightarrow> inv_mercator m * (180 / pi) = min_latitude"
  by (simp add: inv_mercator_def min_latitude_def)

lemma min_latitude_negative: "min_latitude < 0"
proof -
  have "arctan (exp (- pi)) < arctan 1"
    by (simp add: arctan_less_iff)
  then have "2 * arctan (exp (- pi)) - pi / 2 < 0"
    by (simp add: arctan_one)
  then show ?thesis
    unfolding min_latitude_def by (intro mult_neg_pos) simp_all
qed

lemma unproject_unrotated:
  assumes "k \<noteq> 0"
  shows "unproject (viewport_of x y k 0 w h) (Fin a, Fin b) inc =
           (Fin ((a - x) / k * (180 / pi)), Fin (inv_mercator ((y - b) / k) * (180 / pi)))"
  using assms unproject_rot [of k x y 0 w h "(a, b)" inc]
  by (simp add: to_point_def)


section \<open>Rational bounds\<close>

text \<open>
  The known Mercator extremes are stated with a tolerance, so they need numbers: the
  partial sums of the arctangent series bound the arctangent from both sides (their
  derivatives are geometric sums), Machin's formula then bounds \<open>\<pi>\<close>, the Maclaurin
  expansion bounds \<open>exp (\<pi>/8)\<close> and its eighth power \<open>exp \<pi>\<close>, and from these
  \<open>arctan (exp (-\<pi>))\<close> is known to ten digits.
\<close>

lemma arctan_term_deriv:
  "DERIV (\<lambda>t::real. (- 1) ^ k * t ^ (2 * k + 1) / real (2 * k + 1)) t :> (- (t\<^sup>2)) ^ k"
proof -
  have "DERIV (\<lambda>t::real. t ^ (2 * k + 1)) t :> real (2 * k + 1) * t ^ (2 * k)"
    using DERIV_pow [of "2 * k + 1" t] by simp
  then have "DERIV (\<lambda>t::real. (- 1) ^ k * t ^ (2 * k + 1)) t
               :> (- 1) ^ k * (real (2 * k + 1) * t ^ (2 * k))"
    by (rule DERIV_cmult)
  then have "DERIV (\<lambda>t::real. (- 1) ^ k * t ^ (2 * k + 1) / real (2 * k + 1)) t
               :> (- 1) ^ k * (real (2 * k + 1) * t ^ (2 * k)) / real (2 * k + 1)"
    by (rule DERIV_cdivide)
  moreover have "(- 1) ^ k * (real (2 * k + 1) * t ^ (2 * k)) / real (2 * k + 1) = (- (t\<^sup>2)) ^ k"
  proof -
    have "(- (t\<^sup>2)) ^ k = (- 1) ^ k * t ^ (2 * k)"
      by (simp add: power_minus [of "t\<^sup>2"] power_mult)
    then show ?thesis by simp
  qed
  ultimately show ?thesis by simp
qed

lemma arctan_sum_deriv:
  "DERIV (arctan_sum n) t :> (\<Sum>k<n. (- (t\<^sup>2)) ^ k)"
  unfolding arctan_sum_def
  by (rule DERIV_sum) (rule arctan_term_deriv)

lemma geometric_neg_square:
  fixes t :: real
  shows "(\<Sum>k<n. (- (t\<^sup>2)) ^ k) * (1 + t\<^sup>2) = 1 - (- (t\<^sup>2)) ^ n"
proof (induction n)
  case 0
  show ?case by simp
next
  case (Suc n)
  show ?case
    using Suc by (simp add: algebra_simps)
qed

lemma arctan_sum_lower:
  fixes x :: real
  assumes "0 \<le> x"
  shows "arctan_sum (2 * m) x \<le> arctan x"
proof -
  define f where "f = (\<lambda>t::real. arctan t - arctan_sum (2 * m) t)"
  have d: "\<exists>y. DERIV f t :> y \<and> 0 \<le> y" for t
  proof -
    have p: "0 < 1 + t\<^sup>2" by (simp add: add_pos_nonneg)
    have "DERIV f t :> inverse (1 + t\<^sup>2) - (\<Sum>k<2 * m. (- (t\<^sup>2)) ^ k)"
      unfolding f_def
      by (intro derivative_intros DERIV_arctan arctan_sum_deriv)
    moreover have "(\<Sum>k<2 * m. (- (t\<^sup>2)) ^ k) \<le> inverse (1 + t\<^sup>2)"
    proof -
      have "(- (t\<^sup>2)) ^ (2 * m) = (t\<^sup>2) ^ (2 * m)" by (simp add: power_mult)
      then have "0 \<le> (- (t\<^sup>2)) ^ (2 * m)" by simp
      then have "(\<Sum>k<2 * m. (- (t\<^sup>2)) ^ k) * (1 + t\<^sup>2) \<le> 1"
        unfolding geometric_neg_square by simp
      then have "(\<Sum>k<2 * m. (- (t\<^sup>2)) ^ k) \<le> 1 / (1 + t\<^sup>2)"
        using p by (simp add: pos_le_divide_eq)
      then show ?thesis by (simp add: inverse_eq_divide)
    qed
    ultimately show ?thesis by force
  qed
  have "f 0 \<le> f x"
    using assms d by (intro DERIV_nonneg_imp_nondecreasing [of 0 x f]) auto
  then show ?thesis by (simp add: f_def arctan_sum_def)
qed

lemma arctan_sum_upper:
  fixes x :: real
  assumes "0 \<le> x"
  shows "arctan x \<le> arctan_sum (2 * m + 1) x"
proof -
  define f where "f = (\<lambda>t::real. arctan_sum (2 * m + 1) t - arctan t)"
  have d: "\<exists>y. DERIV f t :> y \<and> 0 \<le> y" for t
  proof -
    have p: "0 < 1 + t\<^sup>2" by (simp add: add_pos_nonneg)
    have "DERIV f t :> (\<Sum>k<2 * m + 1. (- (t\<^sup>2)) ^ k) - inverse (1 + t\<^sup>2)"
      unfolding f_def
      by (intro derivative_intros DERIV_arctan arctan_sum_deriv)
    moreover have "inverse (1 + t\<^sup>2) \<le> (\<Sum>k<2 * m + 1. (- (t\<^sup>2)) ^ k)"
    proof -
      have "(- (t\<^sup>2)) ^ (2 * m + 1) = - ((t\<^sup>2) ^ (2 * m + 1))" by simp
      then have "(- (t\<^sup>2)) ^ (2 * m + 1) \<le> 0" by simp
      then have "1 \<le> (\<Sum>k<2 * m + 1. (- (t\<^sup>2)) ^ k) * (1 + t\<^sup>2)"
        unfolding geometric_neg_square by simp
      then have "1 / (1 + t\<^sup>2) \<le> (\<Sum>k<2 * m + 1. (- (t\<^sup>2)) ^ k)"
        using p by (simp add: pos_divide_le_eq)
      then show ?thesis by (simp add: inverse_eq_divide)
    qed
    ultimately show ?thesis by force
  qed
  have "f 0 \<le> f x"
    using assms d by (intro DERIV_nonneg_imp_nondecreasing [of 0 x f]) auto
  then show ?thesis by (simp add: f_def arctan_sum_def)
qed

lemma pi_bounds: "3141592653589 / 1000000000000 \<le> pi" "pi \<le> 3141592653590 / 1000000000000"
proof -
  have m: "pi = 16 * arctan (1 / 5) - 4 * arctan (1 / 239)"
    using machin by simp
  have l5: "arctan_sum 10 (1 / 5) \<le> arctan (1 / 5)"
    using arctan_sum_lower [of "1 / 5" 5] by simp
  have u5: "arctan (1 / 5) \<le> arctan_sum 11 (1 / 5)"
    using arctan_sum_upper [of "1 / 5" 5] by simp
  have l239: "arctan_sum 4 (1 / 239) \<le> arctan (1 / 239)"
    using arctan_sum_lower [of "1 / 239" 2] by simp
  have u239: "arctan (1 / 239) \<le> arctan_sum 5 (1 / 239)"
    using arctan_sum_upper [of "1 / 239" 2] by simp
  have lo: "3141592653589 / 1000000000000 \<le> 16 * arctan_sum 10 (1 / 5) - 4 * arctan_sum 5 (1 / 239)"
    by (simp add: arctan_sum_def eval_nat_numeral)
  have hi: "16 * arctan_sum 11 (1 / 5) - 4 * arctan_sum 4 (1 / 239) \<le> 3141592653590 / 1000000000000"
    by (simp add: arctan_sum_def eval_nat_numeral)
  show "3141592653589 / 1000000000000 \<le> pi"
    using lo l5 u239 unfolding m by linarith
  show "pi \<le> 3141592653590 / 1000000000000"
    using hi u5 l239 unfolding m by linarith
qed

lemma exp_sum_12:
  "exp_sum 12 x = 1 + x + x ^ 2 / 2 + x ^ 3 / 6 + x ^ 4 / 24 + x ^ 5 / 120 + x ^ 6 / 720
     + x ^ 7 / 5040 + x ^ 8 / 40320 + x ^ 9 / 362880 + x ^ 10 / 3628800 + x ^ 11 / 39916800"
  by (simp add: exp_sum_def lessThan_nat_numeral fact_numeral)

lemma arctan_sum_4:
  "arctan_sum 4 x = x - x ^ 3 / 3 + x ^ 5 / 5 - x ^ 7 / 7"
  by (simp add: arctan_sum_def eval_nat_numeral)

lemma arctan_sum_5:
  "arctan_sum 5 x = x - x ^ 3 / 3 + x ^ 5 / 5 - x ^ 7 / 7 + x ^ 9 / 9"
  by (simp add: arctan_sum_def eval_nat_numeral)

lemma exp_sum_bounds:
  fixes x :: real
  assumes x: "0 \<le> x" "x \<le> 1 / 2"
  shows "exp_sum n x \<le> exp x" and "exp x \<le> exp_sum n x + 2 * x ^ n / fact n"
proof -
  obtain t where t: "\<bar>t\<bar> \<le> \<bar>x\<bar>" and e: "exp x = exp_sum n x + (exp t / fact n) * x ^ n"
    using Maclaurin_exp_le [of x n] unfolding exp_sum_def by blast
  have xn: "0 \<le> x ^ n" using x by simp
  have "0 \<le> (exp t / fact n) * x ^ n"
    using xn by simp
  then show "exp_sum n x \<le> exp x" using e by simp
  have "t \<le> 1 / 2" using t x by simp
  then have "exp t \<le> exp (1 / 2)" by simp
  moreover have "exp (1 / 2 :: real) \<le> 2"
    using exp_bound_half [of "1 / 2 :: real"] by simp
  ultimately have "exp t \<le> 2" by (rule order_trans)
  then have "exp t / fact n \<le> 2 / fact n"
    by (simp add: divide_right_mono)
  then have "(exp t / fact n) * x ^ n \<le> (2 / fact n) * x ^ n"
    using xn by (rule mult_right_mono)
  then show "exp x \<le> exp_sum n x + 2 * x ^ n / fact n"
    using e by simp
qed

lemma exp_pi_eighth_bounds:
  "14809726704769 / 10000000000000 \<le> exp (pi / 8)"
  "exp (pi / 8) \<le> 14809726704919 / 10000000000000"
proof -
  have lo: "39269908169 / 100000000000 \<le> pi / 8"
    using pi_bounds(1) by simp
  have hi: "pi / 8 \<le> 39269908170 / 100000000000"
    using pi_bounds(2) by simp
  have a: "14809726704769 / 10000000000000 \<le> exp_sum 12 (39269908169 / 100000000000)"
    unfolding exp_sum_12 by (simp add: power_divide)
  have b: "exp_sum 12 (39269908170 / 100000000000)
             + 2 * (39269908170 / 100000000000) ^ 12 / fact 12
           \<le> 14809726704919 / 10000000000000"
    unfolding exp_sum_12 by (simp add: power_divide fact_numeral)
  have "exp_sum 12 (39269908169 / 100000000000) \<le> exp (39269908169 / 100000000000)"
    by (rule exp_sum_bounds) simp_all
  also have "\<dots> \<le> exp (pi / 8)" using lo by simp
  finally show "14809726704769 / 10000000000000 \<le> exp (pi / 8)"
    using a by simp
  have "exp (pi / 8) \<le> exp (39269908170 / 100000000000)" using hi by simp
  also have "\<dots> \<le> exp_sum 12 (39269908170 / 100000000000)
             + 2 * (39269908170 / 100000000000) ^ 12 / fact 12"
    by (rule exp_sum_bounds) simp_all
  finally show "exp (pi / 8) \<le> 14809726704919 / 10000000000000"
    using b by simp
qed

lemma exp_pi_bounds:
  "2314069263115 / 100000000000 \<le> exp pi"
  "exp pi \<le> 2314069263303 / 100000000000"
proof -
  have e: "exp pi = exp (pi / 8) ^ 8"
    using exp_of_nat_mult [of 8 "pi / 8"] by simp
  have "(2314069263115 / 100000000000 :: real) \<le> (14809726704769 / 10000000000000) ^ 8"
    by (simp add: power_divide)
  also have "\<dots> \<le> exp (pi / 8) ^ 8"
    using exp_pi_eighth_bounds(1) by (intro power_mono) simp_all
  finally show "2314069263115 / 100000000000 \<le> exp pi"
    unfolding e .
  have "exp (pi / 8) ^ 8 \<le> (14809726704919 / 10000000000000) ^ 8"
    using exp_pi_eighth_bounds(2) by (intro power_mono) simp_all
  also have "\<dots> \<le> (2314069263303 / 100000000000 :: real)"
    by (simp add: power_divide)
  finally show "exp pi \<le> 2314069263303 / 100000000000"
    unfolding e .
qed

lemma exp_minus_pi_bounds:
  "4321391826330 / 100000000000000 \<le> exp (- pi)"
  "exp (- pi) \<le> 4321391826682 / 100000000000000"
proof -
  have e: "exp (- pi) = 1 / exp pi" by (simp add: exp_minus inverse_eq_divide)
  have p: "0 < exp pi" by simp
  have "(4321391826330 / 100000000000000) * exp pi
          \<le> (4321391826330 / 100000000000000) * (2314069263303 / 100000000000)"
    using exp_pi_bounds(2) by (intro mult_left_mono) simp_all
  also have "\<dots> \<le> 1" by simp
  finally show "4321391826330 / 100000000000000 \<le> exp (- pi)"
    unfolding e using p by (simp add: pos_le_divide_eq)
  have "1 \<le> (4321391826682 / 100000000000000) * (2314069263115 / 100000000000 :: real)"
    by simp
  also have "\<dots> \<le> (4321391826682 / 100000000000000) * exp pi"
    using exp_pi_bounds(1) by (intro mult_left_mono) simp_all
  finally show "exp (- pi) \<le> 4321391826682 / 100000000000000"
    unfolding e using p by (simp add: pos_divide_le_eq)
qed

lemma arctan_exp_minus_pi_bounds:
  "4318704852425 / 100000000000000 \<le> arctan (exp (- pi))"
  "arctan (exp (- pi)) \<le> 4318704852783 / 100000000000000"
proof -
  have "(4318704852425 / 100000000000000 :: real)
          \<le> arctan_sum 4 (4321391826330 / 100000000000000)"
    unfolding arctan_sum_4 by (simp add: power_divide)
  also have "\<dots> \<le> arctan (4321391826330 / 100000000000000)"
    using arctan_sum_lower [of "4321391826330 / 100000000000000" 2] by simp
  also have "\<dots> \<le> arctan (exp (- pi))"
    using exp_minus_pi_bounds(1) by (simp add: arctan_le_iff)
  finally show "4318704852425 / 100000000000000 \<le> arctan (exp (- pi))" .
  have "arctan (exp (- pi)) \<le> arctan (4321391826682 / 100000000000000)"
    using exp_minus_pi_bounds(2) by (simp add: arctan_le_iff)
  also have "\<dots> \<le> arctan_sum 5 (4321391826682 / 100000000000000)"
    using arctan_sum_upper [of "4321391826682 / 100000000000000" 2] by simp
  also have "\<dots> \<le> (4318704852783 / 100000000000000 :: real)"
    unfolding arctan_sum_5 by (simp add: power_divide)
  finally show "arctan (exp (- pi)) \<le> 4318704852783 / 100000000000000" .
qed

lemma arctan_exp_near_minus_pi:
  "pi * (49488712202 / 3600000000000) \<le> arctan (exp (- pi + pixel_eps))"
proof -
  have e1: "1 + pixel_eps \<le> exp pixel_eps"
    by (rule exp_ge_add_one_self)
  have "3141592653589 / 256000000000000000000 \<le> pixel_eps"
    using pi_bounds(1) by (simp add: pixel_eps_def)
  then have e2: "1 + 3141592653589 / 256000000000000000000 \<le> exp pixel_eps"
    using e1 by linarith
  have "(4321391879361 / 100000000000000 :: real)
          \<le> (4321391826330 / 100000000000000) * (1 + 3141592653589 / 256000000000000000000)"
    by simp
  also have "\<dots> \<le> exp (- pi) * exp pixel_eps"
    using exp_minus_pi_bounds(1) e2 by (intro mult_mono) simp_all
  also have "\<dots> = exp (- pi + pixel_eps)"
    by (rule exp_add [symmetric])
  finally have x: "4321391879361 / 100000000000000 \<le> exp (- pi + pixel_eps)" .
  have "pi * (49488712202 / 3600000000000)
          \<le> (3141592653590 / 1000000000000) * (49488712202 / 3600000000000)"
    using pi_bounds(2) by (intro mult_right_mono) simp_all
  also have "\<dots> \<le> (4318704905357 / 100000000000000 :: real)"
    by simp
  also have "\<dots> \<le> arctan_sum 4 (4321391879361 / 100000000000000)"
    unfolding arctan_sum_4 by (simp add: power_divide)
  also have "\<dots> \<le> arctan (4321391879361 / 100000000000000)"
    using arctan_sum_lower [of "4321391879361 / 100000000000000" 2] by simp
  also have "\<dots> \<le> arctan (exp (- pi + pixel_eps))"
    using x by (simp add: arctan_le_iff)
  finally show ?thesis .
qed

subsection \<open>The Mercator extremes\<close>

lemma mercator_between:
  assumes t: "- (pi / 2) < t" "t < pi / 2"
    and lo: "arctan (exp a) \<le> (pi / 2 + t) / 2"
    and hi: "(pi / 2 + t) / 2 \<le> arctan (exp b)"
  shows "a \<le> mercator t" "mercator t \<le> b"
proof -
  define u where "u = (pi / 2 + t) / 2"
  have u: "0 < u" "u < pi / 2" using t by (simp_all add: u_def)
  have tpos: "0 < tan u" using u by (rule tan_gt_zero)
  have au: "arctan (tan u) = u" using u by (intro arctan_tan) simp_all
  have "arctan (exp a) \<le> arctan (tan u)" using lo au by (simp add: u_def)
  then have "exp a \<le> tan u" by (simp add: arctan_le_iff)
  then have "ln (exp a) \<le> ln (tan u)" using tpos by (subst ln_le_cancel_iff) simp_all
  then show "a \<le> mercator t" by (simp add: mercator_def u_def)
  have "arctan (tan u) \<le> arctan (exp b)" using hi au by (simp add: u_def)
  then have "tan u \<le> exp b" by (simp add: arctan_le_iff)
  then have "ln (tan u) \<le> ln (exp b)" using tpos by (subst ln_le_cancel_iff) simp_all
  then show "mercator t \<le> b" by (simp add: mercator_def u_def)
qed

lemma mercator_neg:
  assumes t: "- (pi / 2) < t" "t < pi / 2"
  shows "mercator (- t) = - mercator t"
proof -
  have "(pi / 2 + - t) / 2 = pi / 2 - (pi / 2 + t) / 2" by (simp add: field_simps)
  then have "tan ((pi / 2 + - t) / 2) = inverse (tan ((pi / 2 + t) / 2))"
    by (simp only: tan_cot)
  then show ?thesis
    by (simp add: mercator_def ln_inverse)
qed

lemma mercator_zero: "mercator 0 = 0"
proof -
  have "(pi / 2 + 0) / 2 = pi / 4" by simp
  then show ?thesis by (simp add: mercator_def tan_45)
qed

lemma arctan_exp_pi: "arctan (exp pi) = pi / 2 - arctan (exp (- pi))"
proof -
  have "arctan (1 / exp pi) = sgn (exp pi) * pi / 2 - arctan (exp pi)"
    by (rule arctan_inverse) simp
  moreover have "exp (- pi) = 1 / exp pi"
    by (simp add: exp_minus inverse_eq_divide)
  ultimately show ?thesis by simp
qed

lemma default_viewport_empty:
  assumes "consts_ok c"
  shows "Viewport_new c None None = viewport_of 0 0 (256 / pi) 0 0 0"
  using assms
  by (simp add: Viewport_new_def viewport_of_def or_default_def Math_PI_def consts_ok_def)

lemma project_default:
  assumes c: "consts_ok c"
  shows "project c (viewport_of 0 0 (256 / pi) 0 0 0) (Fin lon, Fin lat) inc
           = (Fin (lon * (256 / 180)), Fin (- (mercator (clamp_phi c lat) * (256 / pi))))"
  by (simp add: project_rot [OF c] to_point_def)

lemma south_extreme_literal: "(- 85.0511287798 :: real) = - (850511287798 / 10000000000)"
  by simp

lemma clamp_phi_south:
  assumes lo: "MIN_PHI c = 2 * arctan (exp (- pi)) - pi / 2"
    and hi: "MAX_PHI c = 2 * arctan (exp pi) - pi / 2"
  shows "clamp_phi c (- (850511287798 / 10000000000))
           = max (2 * arctan (exp (- pi)) - pi / 2) (- (850511287798 / 10000000000) * (pi / 180))"
    and "clamp_phi c (850511287798 / 10000000000)
           = - clamp_phi c (- (850511287798 / 10000000000))"
proof -
  define p0 where "p0 = - (850511287798 / 10000000000) * (pi / 180)"
  have a: "0 < arctan (exp (- pi))" by (simp add: zero_less_arctan_iff)
  have "arctan (exp (- pi)) < arctan 1" by (simp add: arctan_less_iff)
  then have b: "arctan (exp (- pi)) < pi / 4" by (simp add: arctan_one)
  have M: "MAX_PHI c = - MIN_PHI c"
    unfolding lo hi arctan_exp_pi by simp
  have neg: "p0 < 0"
    unfolding p0_def by (simp add: mult_neg_pos)
  have mpos: "0 < MAX_PHI c" unfolding M lo using b by simp
  have mneg: "MIN_PHI c < 0" using mpos M by simp
  have s: "clamp_phi c (- (850511287798 / 10000000000)) = max (MIN_PHI c) (min p0 (MAX_PHI c))"
    unfolding clamp_phi_def p0_def by (rule refl)
  have "min p0 (MAX_PHI c) = p0" using neg mpos by simp
  then have 1: "clamp_phi c (- (850511287798 / 10000000000)) = max (MIN_PHI c) p0"
    using s by simp
  then show "clamp_phi c (- (850511287798 / 10000000000))
           = max (2 * arctan (exp (- pi)) - pi / 2) (- (850511287798 / 10000000000) * (pi / 180))"
    unfolding lo p0_def .
  have n: "clamp_phi c (850511287798 / 10000000000) = max (MIN_PHI c) (min (- p0) (MAX_PHI c))"
    unfolding clamp_phi_def p0_def by simp
  have "max (MIN_PHI c) (min (- p0) (MAX_PHI c)) = min (- p0) (MAX_PHI c)"
    using neg mneg mpos by simp
  also have "\<dots> = - max (MIN_PHI c) p0"
    unfolding M by (simp add: min_def max_def)
  finally show "clamp_phi c (850511287798 / 10000000000)
           = - clamp_phi c (- (850511287798 / 10000000000))"
    using n 1 by simp
qed

lemma mercator_south_extreme:
  assumes lo: "MIN_PHI c = 2 * arctan (exp (- pi)) - pi / 2"
    and hi: "MAX_PHI c = 2 * arctan (exp pi) - pi / 2"
  shows "- pi \<le> mercator (clamp_phi c (- (850511287798 / 10000000000)))"
    and "mercator (clamp_phi c (- (850511287798 / 10000000000))) \<le> - pi + pixel_eps"
    and "- (pi / 2) < clamp_phi c (- (850511287798 / 10000000000))"
    and "clamp_phi c (- (850511287798 / 10000000000)) < pi / 2"
proof -
  define p0 where "p0 = - (850511287798 / 10000000000) * (pi / 180)"
  define B where "B = 2 * arctan (exp (- pi)) - pi / 2"
  define t where "t = clamp_phi c (- (850511287798 / 10000000000))"
  have t: "t = max B p0"
    unfolding t_def B_def p0_def by (rule clamp_phi_south [OF lo hi])
  have a: "0 < arctan (exp (- pi))" by (simp add: zero_less_arctan_iff)
  have "arctan (exp (- pi)) < arctan 1" by (simp add: arctan_less_iff)
  then have b: "arctan (exp (- pi)) < pi / 4" by (simp add: arctan_one)
  have B1: "- (pi / 2) < B" "B < 0" using a b by (simp_all add: B_def)
  have p0: "p0 < 0" unfolding p0_def by (simp add: mult_neg_pos)
  have r1: "- (pi / 2) < t" unfolding t using B1 by simp
  have r2: "t < pi / 2" unfolding t using B1 p0 by simp
  have uB: "(pi / 2 + B) / 2 = arctan (exp (- pi))" by (simp add: B_def)
  have up: "(pi / 2 + p0) / 2 = pi * (49488712202 / 3600000000000)"
    by (simp add: p0_def field_simps)
  have e: "0 \<le> pixel_eps" by (simp add: pixel_eps_def)
  have l: "arctan (exp (- pi)) \<le> (pi / 2 + t) / 2"
    using uB unfolding t by (simp add: max_def)
  have hB: "arctan (exp (- pi)) \<le> arctan (exp (- pi + pixel_eps))"
    using e by (simp add: arctan_le_iff)
  have h: "(pi / 2 + t) / 2 \<le> arctan (exp (- pi + pixel_eps))"
  proof (cases "B \<le> p0")
    case True
    then have "t = p0" unfolding t by simp
    then show ?thesis using up arctan_exp_near_minus_pi by simp
  next
    case False
    then have "t = B" unfolding t by simp
    then show ?thesis using uB hB by simp
  qed
  show "- pi \<le> mercator (clamp_phi c (- (850511287798 / 10000000000)))"
    using mercator_between(1) [OF r1 r2 l h] by (simp add: t_def)
  show "mercator (clamp_phi c (- (850511287798 / 10000000000))) \<le> - pi + pixel_eps"
    using mercator_between(2) [OF r1 r2 l h] by (simp add: t_def)
  show "- (pi / 2) < clamp_phi c (- (850511287798 / 10000000000))" using r1 by (simp add: t_def)
  show "clamp_phi c (- (850511287798 / 10000000000)) < pi / 2" using r2 by (simp add: t_def)
qed

lemma min_latitude_value:
  "- (850511287798 / 10000000000) - 1 / 1000000 \<le> min_latitude"
  "min_latitude \<le> - (850511287798 / 10000000000) + 1 / 1000000"
proof -
  define a where "a = arctan (exp (- pi))"
  have m: "min_latitude = (360 * a - 90 * pi) / pi"
    by (simp add: min_latitude_def a_def field_simps)
  have al: "4318704852425 / 100000000000000 \<le> a" "a \<le> 4318704852783 / 100000000000000"
    unfolding a_def by (rule arctan_exp_minus_pi_bounds)+
  note p = pi_bounds
  have "(49488702202 / 10000000000) * pi
          \<le> (49488702202 / 10000000000) * (3141592653590 / 1000000000000)"
    using p(2) by (intro mult_left_mono) simp_all
  also have "\<dots> \<le> 360 * (4318704852425 / 100000000000000 :: real)"
    by simp
  also have "\<dots> \<le> 360 * a"
    using al(1) by simp
  finally have lo': "(49488702202 / 10000000000) * pi \<le> 360 * a" .
  have "360 * a \<le> 360 * (4318704852783 / 100000000000000)"
    using al(2) by simp
  also have "\<dots> \<le> (49488722202 / 10000000000) * (3141592653589 / 1000000000000 :: real)"
    by simp
  also have "\<dots> \<le> (49488722202 / 10000000000) * pi"
    using p(1) by (intro mult_left_mono) simp_all
  finally have hi': "360 * a \<le> (49488722202 / 10000000000) * pi" .
  have e1: "(- (850511287798 / 10000000000) - 1 / 1000000) * pi
              = (49488702202 / 10000000000) * pi - 90 * pi"
    by (simp add: algebra_simps)
  have e2: "(- (850511287798 / 10000000000) + 1 / 1000000) * pi
              = (49488722202 / 10000000000) * pi - 90 * pi"
    by (simp add: algebra_simps)
  have lo: "(- (850511287798 / 10000000000) - 1 / 1000000) * pi \<le> 360 * a - 90 * pi"
    unfolding e1 using lo' by simp
  have hi: "360 * a - 90 * pi \<le> (- (850511287798 / 10000000000) + 1 / 1000000) * pi"
    unfolding e2 using hi' by simp
  show "- (850511287798 / 10000000000) - 1 / 1000000 \<le> min_latitude"
    unfolding m using lo by (subst pos_le_divide_eq) simp_all
  show "min_latitude \<le> - (850511287798 / 10000000000) + 1 / 1000000"
    unfolding m using hi by (subst pos_divide_le_eq) simp_all
qed


lemma pixel_offset:
  assumes "- pi \<le> m" "m \<le> - pi + pixel_eps"
  shows "\<bar>- (m * (256 / pi)) - 256\<bar> \<le> 1 / 1000000"
    and "\<bar>m * (256 / pi) + 256\<bar> \<le> 1 / 1000000"
proof -
  define q where "q = 256 / pi"
  have pq: "pi * q = 256" by (simp add: q_def)
  have qpos: "0 \<le> q" by (simp add: q_def)
  have e: "pixel_eps * q = 1 / 1000000" by (simp add: q_def pixel_eps_def)
  have d: "m * q + 256 = (m + pi) * q" using pq by (simp add: distrib_right)
  have a: "0 \<le> m + pi" "m + pi \<le> pixel_eps" using assms by simp_all
  have "0 \<le> (m + pi) * q" using a(1) qpos by simp
  then have l: "0 \<le> m * q + 256" using d by simp
  have "(m + pi) * q \<le> pixel_eps * q"
    using a(2) qpos by (rule mult_right_mono)
  then have h: "m * q + 256 \<le> 1 / 1000000" using d e by simp
  have "\<bar>- (m * q) - 256\<bar> \<le> 1 / 1000000" using l h by (simp add: abs_le_iff)
  then show "\<bar>- (m * (256 / pi)) - 256\<bar> \<le> 1 / 1000000" unfolding q_def .
  have "\<bar>m * q + 256\<bar> \<le> 1 / 1000000" using l h by (simp add: abs_le_iff)
  then show "\<bar>m * (256 / pi) + 256\<bar> \<le> 1 / 1000000" unfolding q_def .
qed


section \<open>Reachable states\<close>

text \<open>
  The constructor called with finite arguments gives a valid Viewport, and every setter
  called with finite arguments keeps a Viewport valid; a valid Viewport is one of the
  form \<open>viewport_of x y k r w h\<close> with \<open>k\<close> in \<open>[MIN_K, MAX_K]\<close> and \<open>r\<close> in \<open>[0, 2\<pi>)\<close>.
\<close>

lemma finite_num_iff: "finite_num n \<longleftrightarrow> (\<exists>a. n = Fin a)"
  by (cases n) simp_all

lemma scale_in_range_iff: "scale_in_range c n \<longleftrightarrow> (\<exists>k. n = Fin k \<and> MIN_K c \<le> k \<and> k \<le> MAX_K c)"
  by (cases n) simp_all

lemma rotation_in_range_iff: "rotation_in_range n \<longleftrightarrow> (\<exists>r. n = Fin r \<and> 0 \<le> r \<and> r < 2 * pi)"
  by (cases n) simp_all

lemma valid_viewport_iff:
  "valid_viewport c vp \<longleftrightarrow>
     (\<exists>x y k r w h. vp = viewport_of x y k r w h \<and> MIN_K c \<le> k \<and> k \<le> MAX_K c
        \<and> 0 \<le> r \<and> r < 2 * pi)"
proof
  assume "valid_viewport c vp"
  then obtain x y k r w h where
    "t_x (v_transform vp) = Fin x" "t_y (v_transform vp) = Fin y"
    "t_k (v_transform vp) = Fin k" "MIN_K c \<le> k" "k \<le> MAX_K c"
    "t_r (v_transform vp) = Fin r" "0 \<le> r" "r < 2 * pi"
    "fst (v_dimensions vp) = Fin w" "snd (v_dimensions vp) = Fin h"
    unfolding valid_viewport_def finite_num_iff scale_in_range_iff rotation_in_range_iff
    by blast
  then have "vp = viewport_of x y k r w h \<and> MIN_K c \<le> k \<and> k \<le> MAX_K c \<and> 0 \<le> r \<and> r < 2 * pi"
    by (cases vp; cases "v_transform vp") (auto simp: viewport_of_def)
  then show "\<exists>x y k r w h. vp = viewport_of x y k r w h \<and> MIN_K c \<le> k \<and> k \<le> MAX_K c
        \<and> 0 \<le> r \<and> r < 2 * pi"
    by blast
next
  assume "\<exists>x y k r w h. vp = viewport_of x y k r w h \<and> MIN_K c \<le> k \<and> k \<le> MAX_K c
        \<and> 0 \<le> r \<and> r < 2 * pi"
  then show "valid_viewport c vp"
    by (auto simp: valid_viewport_def viewport_of_def)
qed

lemma numClamp_in_range:
  assumes "MIN_K c \<le> MAX_K c" "finite_num v"
  shows "scale_in_range c (numClamp v (Fin (MIN_K c)) (Fin (MAX_K c)))"
  using assms by (cases v) simp_all

lemma numWrap_in_range:
  assumes "finite_num v"
  shows "rotation_in_range (numWrap v (Fin 0) TAU)"
  using assms wrap_tau_range by (cases v) simp_all

lemma or_default_finite:
  assumes "finite_arg v"
  shows "finite_num (or_default v (Fin d))"
  using assms by (cases v) (simp_all add: or_default_def)

lemma constructor_valid:
  assumes c: "consts_ok c"
    and t: "finite_arg (Option.bind t a_x)" "finite_arg (Option.bind t a_y)"
           "finite_arg (Option.bind t a_k)" "finite_arg (Option.bind t a_r)"
    and d: "finite_arg (map_option fst d)" "finite_arg (map_option snd d)"
  shows "valid_viewport c (Viewport_new c t d)"
proof -
  have m: "MIN_K c \<le> MAX_K c" using c by (simp add: consts_ok_def)
  have k: "finite_num (or_default (Option.bind t a_k) (Fin 256 / Math_PI))"
    using or_default_finite [OF t(3), of "256 / pi"] by (simp add: Math_PI_def)
  show ?thesis
    using t d numClamp_in_range [OF m k]
    by (cases d) (simp_all add: valid_viewport_def Viewport_new_def or_default_finite
        numWrap_in_range)
qed

lemma transform_set:
  "transform c vp (Some obj)
     = Inr (vp\<lparr> v_transform :=
          \<lparr> t_x = (case a_x obj of None \<Rightarrow> t_x (v_transform vp) | Some v \<Rightarrow> v),
            t_y = (case a_y obj of None \<Rightarrow> t_y (v_transform vp) | Some v \<Rightarrow> v),
            t_k = (case a_k obj of None \<Rightarrow> t_k (v_transform vp)
                   | Some v \<Rightarrow> numClamp v (Fin (MIN_K c)) (Fin (MAX_K c))),
            t_r = (case a_r obj of None \<Rightarrow> t_r (v_transform vp)
                   | Some v \<Rightarrow> numWrap v (Fin 0) TAU) \<rparr> \<rparr>)"
  by (simp add: transform_def Let_def split: option.split)

lemma field_update_valid:
  assumes "finite_arg a"
  shows "finite_num old \<Longrightarrow> finite_num (case a of None \<Rightarrow> old | Some v \<Rightarrow> v)"
    and "MIN_K c \<le> MAX_K c \<Longrightarrow> scale_in_range c old \<Longrightarrow>
           scale_in_range c (case a of None \<Rightarrow> old
                             | Some v \<Rightarrow> numClamp v (Fin (MIN_K c)) (Fin (MAX_K c)))"
    and "rotation_in_range old \<Longrightarrow>
           rotation_in_range (case a of None \<Rightarrow> old | Some v \<Rightarrow> numWrap v (Fin 0) TAU)"
  using assms by (cases a; simp add: numClamp_in_range numWrap_in_range)+

lemma setters_valid:
  assumes c: "consts_ok c" and v: "valid_viewport c vp"
  shows "translate vp (Some (Fin a, Fin b)) = Inr vp' \<Longrightarrow> valid_viewport c vp'"
    and "scale c vp (Some (Fin a)) = Inr vp' \<Longrightarrow> valid_viewport c vp'"
    and "rotate vp (Some (Fin a)) = Inr vp' \<Longrightarrow> valid_viewport c vp'"
    and "dimensions vp (Some (Fin a, Fin b)) = Inr vp' \<Longrightarrow> valid_viewport c vp'"
    and "finite_arg (a_x ob) \<Longrightarrow> finite_arg (a_y ob) \<Longrightarrow> finite_arg (a_k ob)
           \<Longrightarrow> finite_arg (a_r ob) \<Longrightarrow> transform c vp (Some ob) = Inr vp'
           \<Longrightarrow> valid_viewport c vp'"
proof -
  have m: "MIN_K c \<le> MAX_K c" using c by (simp add: consts_ok_def)
  show "translate vp (Some (Fin a, Fin b)) = Inr vp' \<Longrightarrow> valid_viewport c vp'"
    using v by (auto simp: translate_def valid_viewport_def)
  show "scale c vp (Some (Fin a)) = Inr vp' \<Longrightarrow> valid_viewport c vp'"
    using v m by (auto simp: scale_def valid_viewport_def)
  show "rotate vp (Some (Fin a)) = Inr vp' \<Longrightarrow> valid_viewport c vp'"
    using v wrap_tau_range [of a] by (auto simp: rotate_def valid_viewport_def)
  show "dimensions vp (Some (Fin a, Fin b)) = Inr vp' \<Longrightarrow> valid_viewport c vp'"
    using v by (auto simp: dimensions_def valid_viewport_def vecCeil_def)
  show "finite_arg (a_x ob) \<Longrightarrow> finite_arg (a_y ob) \<Longrightarrow> finite_arg (a_k ob)
           \<Longrightarrow> finite_arg (a_r ob) \<Longrightarrow> transform c vp (Some ob) = Inr vp'
           \<Longrightarrow> valid_viewport c vp'"
    unfolding transform_set using v m
    by (auto simp: valid_viewport_def field_update_valid)
qed

lemma valid_viewport_of:
  assumes "MIN_K c \<le> k" "k \<le> MAX_K c" "0 \<le> r" "r < 2 * pi"
  shows "valid_viewport c (viewport_of x y k r w h)"
  using assms by (simp add: valid_viewport_def viewport_of_def)

lemma valid_viewport_example:
  "valid_viewport std_consts (viewport_of 20 30 (256 / pi) 1 800 600)"
proof -
  have k: "MIN_K std_consts \<le> 256 / pi" "256 / pi \<le> MAX_K std_consts"
    using std_consts_ok by (simp_all add: consts_ok_def)
  have "(1::real) < 2 * pi" using pi_ge_two by simp
  then show ?thesis using k by (intro valid_viewport_of) simp_all
qed


section \<open>Evaluation within the range of a double\<close>

text \<open>
  Where every intermediate result stays below \<open>10^300\<close> in magnitude, the range-checked
  operations give what the exact ones give. The lemmas follow the magnitudes through
  \<open>project_dbl\<close> and \<open>unproject_dbl\<close> line by line.
\<close>

lemma lvl_mono: "lvl n v \<Longrightarrow> n \<le> m \<Longrightarrow> lvl m v"
proof -
  assume a: "lvl n v" "n \<le> m"
  have "(10::real) ^ n \<le> 10 ^ m" using a(2) by (intro power_increasing) simp_all
  then show ?thesis using a(1) unfolding lvl_def by linarith
qed

lemma lvl_add: "lvl n a \<Longrightarrow> lvl n b \<Longrightarrow> lvl (Suc n) (a + b)"
  unfolding lvl_def by (simp add: abs_le_iff) 

lemma lvl_diff: "lvl n a \<Longrightarrow> lvl n b \<Longrightarrow> lvl (Suc n) (a - b)"
  unfolding lvl_def by (simp add: abs_le_iff)

lemma lvl_mult: "lvl n a \<Longrightarrow> lvl m b \<Longrightarrow> lvl (n + m) (a * b)"
  unfolding lvl_def by (simp add: abs_mult power_add mult_mono)

lemma lvl_div: "lvl n a \<Longrightarrow> 1 \<le> k \<Longrightarrow> lvl n (a / k)"
proof -
  assume a: "lvl n a" "1 \<le> k"
  have "\<bar>a / k\<bar> = \<bar>a\<bar> / k" using a(2) by simp
  also have "\<dots> \<le> \<bar>a\<bar> / 1" using a(2) by (intro divide_left_mono) simp_all
  finally show ?thesis using a(1) unfolding lvl_def by simp
qed

lemma lvl_unit: "\<bar>v\<bar> \<le> 1 \<Longrightarrow> lvl 0 v"
  by (simp add: lvl_def)

lemma moderate_lvl: "moderate v \<Longrightarrow> lvl 100 v"
  by (simp add: lvl_def moderate_def)

lemma limit_above: "(10::real) ^ 300 < DBL_LIMIT"
  by (simp add: DBL_LIMIT_def)

lemma overflow_lvl:
  assumes "lvl n v" "n \<le> 300"
  shows "overflow (Fin v) = Fin v"
proof -
  have "lvl 300 v" using assms by (rule lvl_mono)
  then have "\<bar>v\<bar> < DBL_LIMIT" using limit_above unfolding lvl_def by linarith
  then show ?thesis by (simp add: abs_less_iff)
qed

lemma add_dbl_Fin: "lvl n (a + b) \<Longrightarrow> n \<le> 300 \<Longrightarrow> add_dbl (Fin a) (Fin b) = Fin (a + b)"
  by (simp add: add_dbl_def overflow_lvl del: overflow.simps)

lemma sub_dbl_Fin: "lvl n (a - b) \<Longrightarrow> n \<le> 300 \<Longrightarrow> sub_dbl (Fin a) (Fin b) = Fin (a - b)"
  by (simp add: sub_dbl_def overflow_lvl del: overflow.simps)

lemma mul_dbl_Fin: "lvl n (a * b) \<Longrightarrow> n \<le> 300 \<Longrightarrow> mul_dbl (Fin a) (Fin b) = Fin (a * b)"
  by (simp add: mul_dbl_def overflow_lvl del: overflow.simps)

lemma div_dbl_Fin:
  "lvl n (a / b) \<Longrightarrow> n \<le> 300 \<Longrightarrow> b \<noteq> 0 \<Longrightarrow> div_dbl (Fin a) (Fin b) = Fin (a / b)"
  by (simp add: div_dbl_def overflow_lvl del: overflow.simps)

lemma overflow_small: "- DBL_LIMIT < v \<Longrightarrow> v < DBL_LIMIT \<Longrightarrow> overflow (Fin v) = Fin v"
  by simp

lemma overflow_large: "DBL_LIMIT \<le> v \<Longrightarrow> overflow (Fin v) = PInf"
  by simp

lemma limit_between: "(10::real) ^ 308 < DBL_LIMIT" "DBL_LIMIT < 2 * 10 ^ 308"
  by (simp_all add: DBL_LIMIT_def)

lemma lvl_cos: "lvl 0 (cos t)" and lvl_sin: "lvl 0 (sin t)"
  by (simp_all add: lvl_def)

lemma vecRotate_dbl_Fin:
  assumes "lvl n a" "lvl n b" "lvl n cx" "lvl n cy" "n + 3 \<le> 300"
  shows "vecRotate_dbl (Fin a, Fin b) (Fin t) (Fin cx, Fin cy) = to_point (rot t cx cy (a, b))"
    and "lvl (n + 3) (fst (rot t cx cy (a, b)))"
    and "lvl (n + 3) (snd (rot t cx cy (a, b)))"
proof -
  define dx where "dx = a - cx"
  define dy where "dy = b - cy"
  have dx: "lvl (Suc n) dx" unfolding dx_def using assms(1,3) by (rule lvl_diff)
  have dy: "lvl (Suc n) dy" unfolding dy_def using assms(2,4) by (rule lvl_diff)
  have xc: "lvl (Suc n) (dx * cos t)" using lvl_mult [OF dx lvl_cos, of t] by simp
  have ys: "lvl (Suc n) (dy * sin t)" using lvl_mult [OF dy lvl_sin, of t] by simp
  have xs: "lvl (Suc n) (dx * sin t)" using lvl_mult [OF dx lvl_sin, of t] by simp
  have yc: "lvl (Suc n) (dy * cos t)" using lvl_mult [OF dy lvl_cos, of t] by simp
  have d1: "lvl (Suc (Suc n)) (dx * cos t - dy * sin t)" using xc ys by (rule lvl_diff)
  have d2: "lvl (Suc (Suc n)) (dx * sin t + dy * cos t)" using xs yc by (rule lvl_add)
  have cx2: "lvl (Suc (Suc n)) cx" using assms(3) by (rule lvl_mono) simp
  have cy2: "lvl (Suc (Suc n)) cy" using assms(4) by (rule lvl_mono) simp
  have r1: "lvl (Suc (Suc (Suc n))) (dx * cos t - dy * sin t + cx)" using d1 cx2 by (rule lvl_add)
  have r2: "lvl (Suc (Suc (Suc n))) (dx * sin t + dy * cos t + cy)" using d2 cy2 by (rule lvl_add)
  have le: "Suc n \<le> 300" "Suc (Suc n) \<le> 300" "Suc (Suc (Suc n)) \<le> 300"
    using assms(5) by simp_all
  have s1: "sub_dbl (Fin a) (Fin cx) = Fin dx"
    unfolding dx_def using dx le(1) unfolding dx_def by (rule sub_dbl_Fin)
  have s2: "sub_dbl (Fin b) (Fin cy) = Fin dy"
    unfolding dy_def using dy le(1) unfolding dy_def by (rule sub_dbl_Fin)
  have s3: "mul_dbl (Fin dx) (Fin (cos t)) = Fin (dx * cos t)" using xc le(1) by (rule mul_dbl_Fin)
  have s4: "mul_dbl (Fin dy) (Fin (sin t)) = Fin (dy * sin t)" using ys le(1) by (rule mul_dbl_Fin)
  have s5: "mul_dbl (Fin dx) (Fin (sin t)) = Fin (dx * sin t)" using xs le(1) by (rule mul_dbl_Fin)
  have s6: "mul_dbl (Fin dy) (Fin (cos t)) = Fin (dy * cos t)" using yc le(1) by (rule mul_dbl_Fin)
  have s7: "sub_dbl (Fin (dx * cos t)) (Fin (dy * sin t)) = Fin (dx * cos t - dy * sin t)"
    using d1 le(2) by (rule sub_dbl_Fin)
  have s8: "add_dbl (Fin (dx * sin t)) (Fin (dy * cos t)) = Fin (dx * sin t + dy * cos t)"
    using d2 le(2) by (rule add_dbl_Fin)
  have s9: "add_dbl (Fin (dx * cos t - dy * sin t)) (Fin cx) = Fin (dx * cos t - dy * sin t + cx)"
    using r1 le(3) by (rule add_dbl_Fin)
  have s10: "add_dbl (Fin (dx * sin t + dy * cos t)) (Fin cy) = Fin (dx * sin t + dy * cos t + cy)"
    using r2 le(3) by (rule add_dbl_Fin)
  show "vecRotate_dbl (Fin a, Fin b) (Fin t) (Fin cx, Fin cy) = to_point (rot t cx cy (a, b))"
    by (simp add: vecRotate_dbl_def Let_def s1 s2 s3 s4 s5 s6 s7 s8 s9 s10 to_point_def rot_def
        dx_def [symmetric] dy_def [symmetric])
  show "lvl (n + 3) (fst (rot t cx cy (a, b)))"
    using r1 by (simp add: rot_def dx_def dy_def numeral_3_eq_3)
  show "lvl (n + 3) (snd (rot t cx cy (a, b)))"
    using r2 by (simp add: rot_def dx_def dy_def numeral_3_eq_3)
qed

lemma vecScale_dbl_half:
  assumes "lvl n w" "lvl n h" "n \<le> 300"
  shows "vecScale_dbl (Fin w, Fin h) (Fin 0.5) = (Fin (w * 0.5), Fin (h * 0.5))"
    and "lvl n (w * 0.5)" and "lvl n (h * 0.5)"
proof -
  have hl: "lvl 0 (0.5::real)" by (simp add: lvl_def)
  show a: "lvl n (w * 0.5)" using lvl_mult [OF assms(1) hl] by simp
  show b: "lvl n (h * 0.5)" using lvl_mult [OF assms(2) hl] by simp
  show "vecScale_dbl (Fin w, Fin h) (Fin 0.5) = (Fin (w * 0.5), Fin (h * 0.5))"
    using mul_dbl_Fin [OF a assms(3)] mul_dbl_Fin [OF b assms(3)]
    by (simp add: vecScale_dbl_def)
qed

lemma lvl_pi: "lvl 1 pi" "lvl 0 (pi / 180)" "lvl 2 (180 / pi)" "lvl 1 (pi / 2)"
proof -
  have p: "pi \<le> 4" "2 \<le> pi" using pi_less_4 pi_ge_two by simp_all
  show "lvl 1 pi" using p by (simp add: lvl_def)
  show "lvl 0 (pi / 180)" using p by (simp add: lvl_def)
  have "180 / pi \<le> 180 / 2" using p by (intro divide_left_mono) simp_all
  then show "lvl 2 (180 / pi)" by (simp add: lvl_def)
  show "lvl 1 (pi / 2)" using p by (simp add: lvl_def)
qed

lemma mercator_clamped:
  assumes c: "consts_ok c"
  shows "- pi \<le> mercator (clamp_phi c lat)" "mercator (clamp_phi c lat) \<le> pi"
    and "tan ((pi / 2 + clamp_phi c lat) / 2) = exp (mercator (clamp_phi c lat))"
proof -
  define phi where "phi = clamp_phi c lat"
  have r: "- (pi / 2) < phi" "phi < pi / 2"
    unfolding phi_def by (rule clamp_phi_range [OF c])+
  have b: "2 * arctan (exp (- pi)) - pi / 2 \<le> phi" "phi \<le> 2 * arctan (exp pi) - pi / 2"
    using c unfolding phi_def clamp_phi_def consts_ok_def by auto
  have l: "arctan (exp (- pi)) \<le> (pi / 2 + phi) / 2" using b(1) by simp
  have h: "(pi / 2 + phi) / 2 \<le> arctan (exp pi)" using b(2) by simp
  show "- pi \<le> mercator (clamp_phi c lat)"
    using mercator_between(1) [OF r l h] by (simp add: phi_def)
  show "mercator (clamp_phi c lat) \<le> pi"
    using mercator_between(2) [OF r l h] by (simp add: phi_def)
  have "0 < tan ((pi / 2 + phi) / 2)" using r by (rule tan_half_pos)
  then show "tan ((pi / 2 + clamp_phi c lat) / 2) = exp (mercator (clamp_phi c lat))"
    by (simp add: mercator_def phi_def)
qed

lemma exp_le_pi_lvl: "m \<le> pi \<Longrightarrow> lvl 2 (exp m)"
proof -
  assume "m \<le> pi"
  then have "exp m \<le> exp pi" by simp
  also have "\<dots> \<le> 2314069263303 / 100000000000" by (rule exp_pi_bounds)
  also have "\<dots> \<le> (10::real) ^ 2" by simp
  finally show ?thesis by (simp add: lvl_def)
qed

lemma project_dbl_exact:
  assumes c: "consts_ok c" and kb: "MAX_K c \<le> 10 ^ 10"
    and k: "MIN_K c \<le> k" "k \<le> MAX_K c"
    and m: "moderate x" "moderate y" "moderate w" "moderate h" "moderate lon" "moderate lat"
  shows "project_dbl c (viewport_of x y k r w h) (Fin lon, Fin lat) inc
           = project c (viewport_of x y k r w h) (Fin lon, Fin lat) inc"
proof -
  define lam where "lam = lon * (pi / 180)"
  define latr where "latr = lat * (pi / 180)"
  define phi where "phi = clamp_phi c lat"
  define u where "u = (pi / 2 + phi) / 2"
  define mY where "mY = mercator phi"
  define px where "px = lam * k + x"
  define py where "py = y - mY * k"
  have kpos: "0 < k" using c k by (simp add: consts_ok_def)
  have kl: "lvl 10 k" using kpos k kb by (simp add: lvl_def)
  have lam: "lvl 100 lam"
    unfolding lam_def using lvl_mult [OF moderate_lvl [OF m(5)] lvl_pi(2)] by simp
  have latr: "lvl 100 latr"
    unfolding latr_def using lvl_mult [OF moderate_lvl [OF m(6)] lvl_pi(2)] by simp
  have r: "- (pi / 2) < phi" "phi < pi / 2"
    unfolding phi_def by (rule clamp_phi_range [OF c])+
  have s: "lvl 1 (pi / 2 + phi)"
    using r pi_less_4 by (simp add: lvl_def abs_le_iff)
  have ul: "lvl 1 u"
    unfolding u_def using s by (rule lvl_div) simp
  note mc = mercator_clamped [OF c, of lat]
  have tn: "tan u = exp mY" unfolding u_def mY_def phi_def by (rule mc(3))
  have tl: "lvl 2 (tan u)" unfolding tn using mc(2) unfolding mY_def phi_def by (rule exp_le_pi_lvl)
  have cu: "cos u \<noteq> 0" unfolding u_def using r by (rule tan_half_pos)
  have mYl: "lvl 1 mY"
    using mc(1,2) pi_less_4 by (simp add: lvl_def abs_le_iff mY_def phi_def)
  have lk: "lvl 110 (lam * k)" using lvl_mult [OF lam kl] by simp
  have xl: "lvl 110 x" using moderate_lvl [OF m(1)] by (rule lvl_mono) simp
  have pxl: "lvl 111 px" unfolding px_def using lvl_add [OF lk xl] by simp
  have mk: "lvl 100 (mY * k)" using lvl_mult [OF mYl kl] by (rule lvl_mono) simp
  have pyl: "lvl 101 py" unfolding py_def using lvl_diff [OF moderate_lvl [OF m(2)] mk] by simp
  have s1: "mul_dbl (Fin lon) DEG2RAD = Fin lam"
    unfolding DEG2RAD_def lam_def using lam unfolding lam_def by (rule mul_dbl_Fin) simp
  have s2: "mul_dbl (Fin lat) DEG2RAD = Fin latr"
    unfolding DEG2RAD_def latr_def using latr unfolding latr_def by (rule mul_dbl_Fin) simp
  have s3: "numClamp (Fin latr) (Fin (MIN_PHI c)) (Fin (MAX_PHI c)) = Fin phi"
    by (simp add: phi_def clamp_phi_def latr_def)
  have s4: "add_dbl HALF_PI (Fin phi) = Fin (pi / 2 + phi)"
    unfolding HALF_PI_def using s by (rule add_dbl_Fin) simp
  have s5: "div_dbl (Fin (pi / 2 + phi)) (Fin 2) = Fin u"
    unfolding u_def using ul unfolding u_def by (rule div_dbl_Fin) simp_all
  have s6: "Math_tan_dbl (Fin u) = Fin (tan u)"
    using cu overflow_lvl [OF tl] by (simp add: Math_tan_dbl_def del: overflow.simps)
  have s7: "Math_log (Fin (tan u)) = Fin mY"
    unfolding tn by (simp add: mY_def)
  have s8: "mul_dbl (Fin lam) (Fin k) = Fin (lam * k)" using lk by (rule mul_dbl_Fin) simp
  have s9: "add_dbl (Fin (lam * k)) (Fin x) = Fin px"
    unfolding px_def using pxl unfolding px_def by (rule add_dbl_Fin) simp
  have s10: "mul_dbl (Fin mY) (Fin k) = Fin (mY * k)" using mk by (rule mul_dbl_Fin) simp
  have s11: "sub_dbl (Fin y) (Fin (mY * k)) = Fin py"
    unfolding py_def using pyl unfolding py_def by (rule sub_dbl_Fin) simp
  have px2: "lvl 111 py" using pyl by (rule lvl_mono) simp
  have wl: "lvl 111 w" "lvl 111 h"
    using moderate_lvl [OF m(3)] moderate_lvl [OF m(4)] by (auto intro: lvl_mono)
  have n111: "(111::nat) \<le> 300" by simp
  note sc = vecScale_dbl_half [OF wl n111]
  have rotd: "vecRotate_dbl (Fin px, Fin py) (Fin r) (Fin (w * 0.5), Fin (h * 0.5))
                = to_point (rot r (w * 0.5) (h * 0.5) (px, py))"
    using pxl px2 sc(2,3) by (rule vecRotate_dbl_Fin(1)) simp
  have exact: "project c (viewport_of x y k r w h) (Fin lon, Fin lat) inc =
           to_point (if inc \<and> r \<noteq> 0 then rot r (w * 0.5) (h * 0.5) (px, py) else (px, py))"
    unfolding project_rot [OF c] px_def py_def lam_def mY_def phi_def by (rule refl)
  have "project_dbl c (viewport_of x y k r w h) (Fin lon, Fin lat) inc =
          (if inc \<and> r \<noteq> 0
           then vecRotate_dbl (Fin px, Fin py) (Fin r) (vecScale_dbl (Fin w, Fin h) (Fin 0.5))
           else (Fin px, Fin py))"
    by (simp only: project_dbl_def viewport_of_def Let_def Transform.select_convs
        Viewport.select_convs fst_conv snd_conv truthy.simps s1 s2 s3 s4 s5 s6 s7 s8 s9 s10 s11)
  also have "\<dots> =
           to_point (if inc \<and> r \<noteq> 0 then rot r (w * 0.5) (h * 0.5) (px, py) else (px, py))"
    unfolding sc(1) rotd to_point_def by auto
  finally have "project_dbl c (viewport_of x y k r w h) (Fin lon, Fin lat) inc =
           to_point (if inc \<and> r \<noteq> 0 then rot r (w * 0.5) (h * 0.5) (px, py) else (px, py))" .
  then show ?thesis using exact by simp
qed

lemma unproject_dbl_exact:
  assumes k: "1 \<le> k" "k \<le> 10 ^ 10"
    and m: "moderate x" "moderate y" "moderate w" "moderate h" "moderate a" "moderate b"
  shows "unproject_dbl (viewport_of x y k r w h) (Fin a, Fin b) inc
           = unproject (viewport_of x y k r w h) (Fin a, Fin b) inc"
proof -
  define q where "q = (if inc \<and> r \<noteq> 0 then rot (- r) (w * 0.5) (h * 0.5) (a, b) else (a, b))"
  define qx where "qx = fst q"
  define qy where "qy = snd q"
  define mX where "mX = (qx - x) / k"
  define v where "v = (y - qy) / k"
  define mY where "mY = max (- pi) (min v pi)"
  define e where "e = exp mY"
  define phi where "phi = 2 * arctan e - pi / 2"
  have k0: "k \<noteq> 0" using k by simp
  have n100: "(100::nat) \<le> 300" "100 + 3 \<le> (300::nat)" by simp_all
  note ml = moderate_lvl [OF m(1)] moderate_lvl [OF m(2)] moderate_lvl [OF m(3)]
    moderate_lvl [OF m(4)] moderate_lvl [OF m(5)] moderate_lvl [OF m(6)]
  note sc = vecScale_dbl_half [OF ml(3) ml(4) n100(1)]
  note rt = vecRotate_dbl_Fin [OF ml(5) ml(6) sc(2) sc(3) n100(2), of "- r"]
  have ql: "lvl 103 qx" "lvl 103 qy"
  proof -
    have "lvl 103 qx \<and> lvl 103 qy"
    proof (cases "inc \<and> r \<noteq> 0")
      case True
      then show ?thesis using rt(2,3) by (simp add: qx_def qy_def q_def)
    next
      case False
      have "lvl 103 a" "lvl 103 b" using ml(5,6) by (auto intro: lvl_mono)
      then show ?thesis using False by (auto simp add: qx_def qy_def q_def)
    qed
    then show "lvl 103 qx" "lvl 103 qy" by simp_all
  qed
  have xl: "lvl 103 x" "lvl 103 y" using ml(1,2) by (auto intro: lvl_mono)
  have dxl: "lvl 104 (qx - x)" using lvl_diff [OF ql(1) xl(1)] by simp
  have dyl: "lvl 104 (y - qy)" using lvl_diff [OF xl(2) ql(2)] by simp
  have mXl: "lvl 104 mX" unfolding mX_def using dxl k(1) by (rule lvl_div)
  have vl: "lvl 104 v" unfolding v_def using dyl k(1) by (rule lvl_div)
  have mYb: "- pi \<le> mY" "mY \<le> pi" using pi_gt_zero by (auto simp add: mY_def)
  have el: "lvl 2 e" unfolding e_def using mYb(2) by (rule exp_le_pi_lvl)
  have ab: "- (pi / 2) < arctan e" "arctan e < pi / 2"
    using arctan_bounded [of e] by simp_all
  have tl: "lvl 1 (2 * arctan e)" using ab pi_less_4 by (simp add: lvl_def abs_le_iff)
  have pl: "lvl 1 phi" using ab pi_less_4 by (simp add: lvl_def phi_def abs_le_iff)
  have ll: "lvl 106 (mX * (180 / pi))" using lvl_mult [OF mXl lvl_pi(3)] by simp
  have fl: "lvl 3 (phi * (180 / pi))" using lvl_mult [OF pl lvl_pi(3)] by (simp add: numeral_3_eq_3)
  have p0: "vecRotate_dbl (Fin a, Fin b) (- Fin r) (vecScale_dbl (Fin w, Fin h) (Fin 0.5))
              = to_point (rot (- r) (w * 0.5) (h * 0.5) (a, b))"
    unfolding sc(1) uminus_num.simps by (rule rt(1))
  have p1: "(if inc \<and> r \<noteq> 0
             then vecRotate_dbl (Fin a, Fin b) (- Fin r) (vecScale_dbl (Fin w, Fin h) (Fin 0.5))
             else (Fin a, Fin b)) = (Fin qx, Fin qy)"
    unfolding p0 qx_def qy_def q_def to_point_def by auto
  have s1: "sub_dbl (Fin qx) (Fin x) = Fin (qx - x)" using dxl by (rule sub_dbl_Fin) simp
  have s2: "div_dbl (Fin (qx - x)) (Fin k) = Fin mX"
    unfolding mX_def using mXl unfolding mX_def by (rule div_dbl_Fin) (simp_all add: k0)
  have s3: "sub_dbl (Fin y) (Fin qy) = Fin (y - qy)" using dyl by (rule sub_dbl_Fin) simp
  have s4: "div_dbl (Fin (y - qy)) (Fin k) = Fin v"
    unfolding v_def using vl unfolding v_def by (rule div_dbl_Fin) (simp_all add: k0)
  have s5: "numClamp (Fin v) (- Math_PI) Math_PI = Fin mY"
    by (simp add: Math_PI_def mY_def)
  have s6: "Math_exp_dbl (Fin mY) = Fin e"
    using overflow_lvl [OF el] by (simp add: Math_exp_dbl_def e_def del: overflow.simps)
  have s7: "Math_atan (Fin e) = Fin (arctan e)" by simp
  have s8: "mul_dbl (Fin 2) (Fin (arctan e)) = Fin (2 * arctan e)" using tl by (rule mul_dbl_Fin) simp
  have s9: "sub_dbl (Fin (2 * arctan e)) HALF_PI = Fin phi"
    unfolding HALF_PI_def phi_def using pl unfolding phi_def by (rule sub_dbl_Fin) simp
  have s10: "mul_dbl (Fin mX) RAD2DEG = Fin (mX * (180 / pi))"
    unfolding RAD2DEG_def using ll by (rule mul_dbl_Fin) simp
  have s11: "mul_dbl (Fin phi) RAD2DEG = Fin (phi * (180 / pi))"
    unfolding RAD2DEG_def using fl by (rule mul_dbl_Fin) simp
  have d: "unproject_dbl (viewport_of x y k r w h) (Fin a, Fin b) inc
             = (Fin (mX * (180 / pi)), Fin (phi * (180 / pi)))"
    by (simp only: unproject_dbl_def viewport_of_def Let_def Transform.select_convs
        Viewport.select_convs fst_conv snd_conv truthy.simps p1 s1 s2 s3 s4 s5 s6 s7 s8 s9 s10 s11)
  have "unproject (viewport_of x y k r w h) (to_point (a, b)) inc
             = (Fin (mX * (180 / pi)), Fin (phi * (180 / pi)))"
    unfolding unproject_rot [OF k0] Let_def mX_def phi_def e_def mY_def v_def qx_def qy_def q_def
      inv_mercator_def by (rule refl)
  then show ?thesis using d by (simp add: to_point_def)
qed

lemma std_consts_scale_bounds: "1 \<le> MIN_K std_consts" "MAX_K std_consts \<le> 10 ^ 10"
proof -
  have p: "pi \<le> 4" "2 \<le> pi" using pi_less_4 pi_ge_two by simp_all
  have "1 \<le> 128 / pi" using p by (simp add: le_divide_eq)
  then show "1 \<le> MIN_K std_consts" by (simp add: std_consts_def)
  have "128 * 2 ^ 24 / pi \<le> 128 * 2 ^ 24 / 2" using p by (intro divide_left_mono) simp_all
  also have "\<dots> \<le> (10::real) ^ 10" by simp
  finally show "MAX_K std_consts \<le> 10 ^ 10" by (simp add: std_consts_def)
qed

lemma default_scale_in_range: "MIN_K std_consts \<le> 256 / pi" "256 / pi \<le> MAX_K std_consts"
  using std_consts_ok by (simp_all add: consts_ok_def)

lemma moderate_examples:
  "moderate 20" "moderate 30" "moderate 800" "moderate 600" "moderate 180" "moderate 90"
  "moderate 256" "moderate 100000"
  by (simp_all add: moderate_def)


section \<open>Construction and setters\<close>

text \<open>
  C6. The claim is that the dimensions are rounded up on every set, at construction as in
  the setter. The setter rounds, the constructor does not: constructed with the
  dimensions \<open>[400.5, 600.25]\<close> a Viewport stores them as they are, where the setter
  called with the same pair stores \<open>[401, 601]\<close>.
\<close>

theorem constructor_dimensions_not_rounded:
  "v_dimensions (Viewport_new std_consts None (Some (Fin (801 / 2), Fin (2401 / 4))))
     = (Fin (801 / 2), Fin (2401 / 4))
   \<and> dimensions (Viewport_new std_consts None None) (Some (Fin (801 / 2), Fin (2401 / 4)))
     = Inr ((Viewport_new std_consts None None)\<lparr> v_dimensions := (Fin 401, Fin 601) \<rparr>)"
  by (simp add: Viewport_new_def dimensions_def vecCeil_def)

text \<open>
  Where the constructor and the setters agree: the scale setter clamps every finite scale
  to \<open>[MIN_K, MAX_K]\<close>, and so does the constructor for a scale other than zero; the
  clamped value is \<open>MIN_K\<close> for a scale of zero or less; a finite rotation is stored
  wrapped into \<open>[0, 2\<pi>)\<close> at construction and by the rotation setter, and \<open>2\<pi>\<close> wraps
  to 0.
\<close>

lemma scale_rotation_normalised_elsewhere:
  assumes c: "consts_ok c"
  shows "scale c this (Some (Fin k))
           = Inr (this\<lparr> v_transform := (v_transform this)
                    \<lparr> t_k := Fin (max (MIN_K c) (min k (MAX_K c))) \<rparr> \<rparr>)"
    and "a_k ta = Some (Fin k) \<Longrightarrow> k \<noteq> 0 \<Longrightarrow>
           t_k (v_transform (Viewport_new c (Some ta) d)) = Fin (max (MIN_K c) (min k (MAX_K c)))"
    and "MIN_K c \<le> max (MIN_K c) (min k (MAX_K c))"
    and "max (MIN_K c) (min k (MAX_K c)) \<le> MAX_K c"
    and "k \<le> 0 \<Longrightarrow> max (MIN_K c) (min k (MAX_K c)) = MIN_K c"
    and "a_r ta = Some (Fin r) \<Longrightarrow>
           t_r (v_transform (Viewport_new c (Some ta) d))
             = Fin (r - 2 * pi * of_int \<lfloor>r / (2 * pi)\<rfloor>)"
    and "rotate this (Some (Fin r))
           = Inr (this\<lparr> v_transform := (v_transform this)
                    \<lparr> t_r := Fin (r - 2 * pi * of_int \<lfloor>r / (2 * pi)\<rfloor>) \<rparr> \<rparr>)"
    and "0 \<le> r - 2 * pi * of_int \<lfloor>r / (2 * pi)\<rfloor>"
    and "r - 2 * pi * of_int \<lfloor>r / (2 * pi)\<rfloor> < 2 * pi"
    and "r = 2 * pi \<Longrightarrow> r - 2 * pi * of_int \<lfloor>r / (2 * pi)\<rfloor> = 0"
proof -
  have mk: "MIN_K c \<le> 256 / pi" "256 / pi \<le> MAX_K c" "0 < MIN_K c"
    using c by (simp_all add: consts_ok_def)
  show "scale c this (Some (Fin k))
           = Inr (this\<lparr> v_transform := (v_transform this)
                    \<lparr> t_k := Fin (max (MIN_K c) (min k (MAX_K c))) \<rparr> \<rparr>)"
    by (simp add: scale_def)
  show "a_k ta = Some (Fin k) \<Longrightarrow> k \<noteq> 0 \<Longrightarrow>
           t_k (v_transform (Viewport_new c (Some ta) d)) = Fin (max (MIN_K c) (min k (MAX_K c)))"
    by (simp add: Viewport_new_def or_default_def)
  show "MIN_K c \<le> max (MIN_K c) (min k (MAX_K c))"
    "max (MIN_K c) (min k (MAX_K c)) \<le> MAX_K c"
    using mk by auto
  show "k \<le> 0 \<Longrightarrow> max (MIN_K c) (min k (MAX_K c)) = MIN_K c"
    using mk by auto
  show "a_r ta = Some (Fin r) \<Longrightarrow>
           t_r (v_transform (Viewport_new c (Some ta) d))
             = Fin (r - 2 * pi * of_int \<lfloor>r / (2 * pi)\<rfloor>)"
    by (simp add: Viewport_new_def or_default_def)
  show "rotate this (Some (Fin r))
           = Inr (this\<lparr> v_transform := (v_transform this)
                    \<lparr> t_r := Fin (r - 2 * pi * of_int \<lfloor>r / (2 * pi)\<rfloor>) \<rparr> \<rparr>)"
    by (simp add: rotate_def)
  show "0 \<le> r - 2 * pi * of_int \<lfloor>r / (2 * pi)\<rfloor>"
    "r - 2 * pi * of_int \<lfloor>r / (2 * pi)\<rfloor> < 2 * pi"
    "r = 2 * pi \<Longrightarrow> r - 2 * pi * of_int \<lfloor>r / (2 * pi)\<rfloor> = 0"
    using wrap_tau_range [of r] by simp_all
qed

text \<open>
  C5. The claim is that a supplied scale is clamped to \<open>[MIN_K, MAX_K]\<close> at construction
  as in the scale setter, a scale of zero giving \<open>MIN_K\<close>. The constructor does not do
  this for zero: \<open>transform?.k || 256 / Math.PI\<close> takes the supplied 0 as absent, and
  \<open>new Viewport({k: 0})\<close> stores \<open>256/\<pi>\<close>, which is not \<open>MIN_K\<close>. The same
  constructor clamps a negative scale to \<open>MIN_K\<close>, and \<open>scale(0)\<close> and
  \<open>transform({k: 0})\<close> store \<open>MIN_K\<close>.
\<close>

theorem constructor_zero_scale_not_clamped:
  "t_k (v_transform (Viewport_new std_consts
          (Some \<lparr> a_x = None, a_y = None, a_k = Some (Fin 0), a_r = None \<rparr>) None))
     = Fin (256 / pi)
   \<and> Fin (256 / pi) \<noteq> Fin (MIN_K std_consts)
   \<and> t_k (v_transform (Viewport_new std_consts
          (Some \<lparr> a_x = None, a_y = None, a_k = Some (Fin (- 5)), a_r = None \<rparr>) None))
     = Fin (MIN_K std_consts)
   \<and> scale std_consts (viewport_of 0 0 (256 / pi) 0 0 0) (Some (Fin 0))
     = Inr (viewport_of 0 0 (MIN_K std_consts) 0 0 0)
   \<and> transform std_consts (viewport_of 0 0 (256 / pi) 0 0 0)
        (Some \<lparr> a_x = None, a_y = None, a_k = Some (Fin 0), a_r = None \<rparr>)
     = Inr (viewport_of 0 0 (MIN_K std_consts) 0 0 0)"
proof -
  have b: "MIN_K std_consts \<le> 256 / pi" "256 / pi \<le> MAX_K std_consts" "0 < MIN_K std_consts"
    using std_consts_ok by (simp_all add: consts_ok_def)
  have n: "256 / pi \<noteq> MIN_K std_consts"
    by (simp add: std_consts_def)
  have m: "max (MIN_K std_consts) (min 0 (MAX_K std_consts)) = MIN_K std_consts"
    "max (MIN_K std_consts) (min (- 5) (MAX_K std_consts)) = MIN_K std_consts"
    using b by auto
  have 1: "t_k (v_transform (Viewport_new std_consts
          (Some \<lparr> a_x = None, a_y = None, a_k = Some (Fin 0), a_r = None \<rparr>) None))
     = Fin (256 / pi)"
    using b by (simp add: Viewport_new_def or_default_def Math_PI_def)
  have 2: "t_k (v_transform (Viewport_new std_consts
          (Some \<lparr> a_x = None, a_y = None, a_k = Some (Fin (- 5)), a_r = None \<rparr>) None))
     = Fin (MIN_K std_consts)"
    using m(2) by (simp add: Viewport_new_def or_default_def)
  have 3: "scale std_consts (viewport_of 0 0 (256 / pi) 0 0 0) (Some (Fin 0))
     = Inr (viewport_of 0 0 (MIN_K std_consts) 0 0 0)"
    using m(1) by (simp add: scale_def viewport_of_def)
  have 4: "transform std_consts (viewport_of 0 0 (256 / pi) 0 0 0)
        (Some \<lparr> a_x = None, a_y = None, a_k = Some (Fin 0), a_r = None \<rparr>)
     = Inr (viewport_of 0 0 (MIN_K std_consts) 0 0 0)"
    using m(1) by (simp add: transform_def viewport_of_def)
  show ?thesis using 1 2 3 4 n by simp
qed

text \<open>
  C7. \<open>transform\<close> called with an object sets each field that is present (\<open>k\<close> clamped,
  \<open>r\<close> wrapped) and keeps each absent field and the dimensions. Called with no argument
  it returns the current transform as a new object: its reference differs from the
  Viewport's own, its contents are the current transform, and whatever is then stored in
  it, the Viewport reads as before.
\<close>

theorem transform_partial_update:
  assumes "o_transform this < length s"
  shows "transform c vp (Some obj)
           = Inr (vp\<lparr> v_transform :=
                \<lparr> t_x = (case a_x obj of None \<Rightarrow> t_x (v_transform vp) | Some v \<Rightarrow> v),
                  t_y = (case a_y obj of None \<Rightarrow> t_y (v_transform vp) | Some v \<Rightarrow> v),
                  t_k = (case a_k obj of None \<Rightarrow> t_k (v_transform vp)
                         | Some v \<Rightarrow> numClamp v (Fin (MIN_K c)) (Fin (MAX_K c))),
                  t_r = (case a_r obj of None \<Rightarrow> t_r (v_transform vp)
                         | Some v \<Rightarrow> numWrap v (Fin 0) TAU) \<rparr> \<rparr>)
       \<and> transform c (view s this) None = Inl (snd (transform_copy s this) ! fst (transform_copy s this))
       \<and> fst (transform_copy s this) \<noteq> o_transform this
       \<and> view (snd (transform_copy s this)) this = view s this
       \<and> (\<forall>t. view ((snd (transform_copy s this))[fst (transform_copy s this) := t]) this
                = view s this)"
proof -
  note 1 = transform_set [of c vp obj]
  have 2: "transform c (view s this) None
             = Inl (snd (transform_copy s this) ! fst (transform_copy s this))"
    by (simp add: transform_def transform_copy_def view_def)
  have 3: "fst (transform_copy s this) \<noteq> o_transform this"
    using assms by (simp add: transform_copy_def)
  have 4: "view ((snd (transform_copy s this))[fst (transform_copy s this) := t]) this
             = view s this" for t
    using assms by (simp add: transform_copy_def view_def nth_append)
  have 5: "view (snd (transform_copy s this)) this = view s this"
    using assms by (simp add: transform_copy_def view_def nth_append)
  show ?thesis using 1 2 3 4 5 by blast
qed


theorem transform_partial_update_witness:
  "o_transform \<lparr> o_transform = 0, o_dimensions = (Fin 800, Fin 600) \<rparr>
     < length [\<lparr> t_x = Fin 1, t_y = Fin 2, t_k = Fin (256 / pi), t_r = Fin 0 \<rparr>]
   \<and> transform std_consts (viewport_of 1 2 (256 / pi) 0 800 600)
        (Some \<lparr> a_x = Some (Fin 7), a_y = None, a_k = None, a_r = None \<rparr>)
      = Inr (viewport_of 7 2 (256 / pi) 0 800 600)
   \<and> fst (transform_copy [\<lparr> t_x = Fin 1, t_y = Fin 2, t_k = Fin (256 / pi), t_r = Fin 0 \<rparr>]
            \<lparr> o_transform = 0, o_dimensions = (Fin 800, Fin 600) \<rparr>) = 1"
proof -
  have l: "o_transform \<lparr> o_transform = 0, o_dimensions = (Fin 800, Fin 600) \<rparr>
     < length [\<lparr> t_x = Fin 1, t_y = Fin 2, t_k = Fin (256 / pi), t_r = Fin 0 \<rparr>]"
    by simp
  show ?thesis
    using transform_partial_update [OF l, of std_consts "viewport_of 1 2 (256 / pi) 0 800 600"
        "\<lparr> a_x = Some (Fin 7), a_y = None, a_k = None, a_r = None \<rparr>"]
    by (simp add: viewport_of_def transform_copy_def)
qed


section \<open>Projection and its inverse\<close>




text \<open>
  C4, as stated, fails: a finite input can leave the range of a double. For a Viewport of
  scale \<open>512/\<pi>\<close>, \<open>project([1e308, 0])\<close> multiplies the longitude in radians by the
  scale and returns +Infinity as its x component; for a Viewport translated to
  \<open>x = -1e308\<close>, \<open>unproject([1e308, 0])\<close> subtracts the translation and returns
  +Infinity as its longitude. Both Viewports are in a reachable state. The clamps bound
  the latitude and the Mercator Y, and nothing bounds the other operands.
\<close>

theorem project_unproject_overflow_counterexample:
  "valid_viewport std_consts (viewport_of 0 0 (512 / pi) 0 0 0)
   \<and> fst (project_dbl std_consts (viewport_of 0 0 (512 / pi) 0 0 0) (Fin (10 ^ 308), Fin 0) False)
       = PInf
   \<and> valid_viewport std_consts (viewport_of (- (10 ^ 308)) 0 (256 / pi) 0 0 0)
   \<and> fst (unproject_dbl (viewport_of (- (10 ^ 308)) 0 (256 / pi) 0 0 0) (Fin (10 ^ 308), Fin 0) False)
       = PInf"
proof -
  define X :: real where "X = 10 ^ 308"
  have X0: "0 < X" by (simp add: X_def)
  have p: "0 < pi" "pi < 4" using pi_gt_zero pi_less_4 by simp_all
  have lim: "X < DBL_LIMIT" "DBL_LIMIT < 2 * X" unfolding X_def by (rule limit_between)+
  have v1: "valid_viewport std_consts (viewport_of 0 0 (512 / pi) 0 0 0)"
    by (rule valid_viewport_of) (simp_all add: std_consts_def divide_le_cancel)
  have v2: "valid_viewport std_consts (viewport_of (- X) 0 (256 / pi) 0 0 0)"
    using default_scale_in_range by (intro valid_viewport_of) simp_all
  have "pi / 180 \<le> 1" using p by simp
  then have "X * (pi / 180) \<le> X * 1" using X0 by (intro mult_left_mono) simp_all
  then have "X * (pi / 180) \<le> X" by simp
  then have a: "X * (pi / 180) < DBL_LIMIT" using lim by linarith
  have a0: "- DBL_LIMIT < X * (pi / 180)"
  proof -
    have "0 \<le> X * (pi / 180)" using X0 p by simp
    then show ?thesis using lim X0 by linarith
  qed
  have s1: "mul_dbl (Fin X) DEG2RAD = Fin (X * (pi / 180))"
    unfolding mul_dbl_def DEG2RAD_def times_num.simps using a0 a by (rule overflow_small)
  have e: "X * (pi / 180) * (512 / pi) = X * (512 / 180)"
    using p by simp
  have "2 * X \<le> X * (512 / 180)" using X0 by simp
  then have big: "DBL_LIMIT \<le> X * (512 / 180)" using lim by linarith
  have s2: "mul_dbl (Fin (X * (pi / 180))) (Fin (512 / pi)) = PInf"
    unfolding mul_dbl_def times_num.simps e using big by (rule overflow_large)
  have s3: "add_dbl PInf (Fin 0) = PInf" by (simp add: add_dbl_def)
  have 1: "fst (project_dbl std_consts (viewport_of 0 0 (512 / pi) 0 0 0) (Fin X, Fin 0) False)
       = PInf"
    by (simp only: project_dbl_def viewport_of_def Let_def Transform.select_convs
        Viewport.select_convs fst_conv snd_conv s1 s2 s3 simp_thms if_False)
  have big2: "DBL_LIMIT \<le> X - - X" using lim by simp
  have t1: "sub_dbl (Fin X) (Fin (- X)) = PInf"
    unfolding sub_dbl_def minus_Fin using big2 by (rule overflow_large)
  have t2: "div_dbl PInf (Fin (256 / pi)) = PInf"
    using p by (simp add: div_dbl_def)
  have t3: "mul_dbl PInf RAD2DEG = PInf"
    using p by (simp add: mul_dbl_def RAD2DEG_def)
  have 2: "fst (unproject_dbl (viewport_of (- X) 0 (256 / pi) 0 0 0) (Fin X, Fin 0) False)
       = PInf"
    by (simp only: unproject_dbl_def viewport_of_def Let_def Transform.select_convs
        Viewport.select_convs fst_conv snd_conv t1 t2 t3 simp_thms if_False)
  show ?thesis using v1 1 v2 2 unfolding X_def by blast
qed

text \<open>
  C4, amended. Take a Viewport whose scale lies in \<open>[MIN_K, MAX_K]\<close>, with
  \<open>1 \<le> MIN_K\<close> and \<open>MAX_K \<le> 10^10\<close>, and whose translation and dimensions are at most
  \<open>10^100\<close> in magnitude. For every input of components at most \<open>10^100\<close> in magnitude,
  with and without rotation, no operation of \<open>project\<close> or \<open>unproject\<close> leaves the range
  of a double, and both return two finite numbers, neither NaN nor an infinity.
  \<open>project\<close> returns the Mercator point of the latitude clamped to \<open>[MIN_PHI, MAX_PHI]\<close>,
  scaled, translated and, if asked, rotated about the centre; \<open>unproject\<close> returns the
  longitude and the inverse Mercator latitude of the Mercator Y clamped to \<open>[-\<pi>, \<pi>]\<close>,
  in degrees. The functions have no failing branch.
\<close>

theorem project_unproject_finite_in_range:
  assumes c: "consts_ok c" and kb: "1 \<le> MIN_K c" "MAX_K c \<le> 10 ^ 10"
    and k: "MIN_K c \<le> k" "k \<le> MAX_K c"
    and m: "moderate x" "moderate y" "moderate w" "moderate h"
    and i: "moderate lon" "moderate lat" "moderate a" "moderate b"
  shows "project_dbl c (viewport_of x y k r w h) (Fin lon, Fin lat) inc
           = to_point
               (if inc \<and> r \<noteq> 0
                then rot r (w * 0.5) (h * 0.5)
                       (lon * (pi / 180) * k + x,
                        y - ln (tan ((pi / 2
                              + max (MIN_PHI c) (min (lat * (pi / 180)) (MAX_PHI c))) / 2)) * k)
                else (lon * (pi / 180) * k + x,
                      y - ln (tan ((pi / 2
                            + max (MIN_PHI c) (min (lat * (pi / 180)) (MAX_PHI c))) / 2)) * k))
       \<and> unproject_dbl (viewport_of x y k r w h) (Fin a, Fin b) inc
           = (let q = (if inc \<and> r \<noteq> 0 then rot (- r) (w * 0.5) (h * 0.5) (a, b) else (a, b))
              in (Fin ((fst q - x) / k * (180 / pi)),
                  Fin ((2 * arctan (exp (max (- pi) (min ((y - snd q) / k) pi))) - pi / 2)
                        * (180 / pi))))
       \<and> finite_num (fst (project_dbl c (viewport_of x y k r w h) (Fin lon, Fin lat) inc))
       \<and> finite_num (snd (project_dbl c (viewport_of x y k r w h) (Fin lon, Fin lat) inc))
       \<and> finite_num (fst (unproject_dbl (viewport_of x y k r w h) (Fin a, Fin b) inc))
       \<and> finite_num (snd (unproject_dbl (viewport_of x y k r w h) (Fin a, Fin b) inc))"
proof -
  have k1: "1 \<le> k" "k \<le> 10 ^ 10" "k \<noteq> 0" using kb k by simp_all
  have p: "project_dbl c (viewport_of x y k r w h) (Fin lon, Fin lat) inc
           = to_point
               (if inc \<and> r \<noteq> 0
                then rot r (w * 0.5) (h * 0.5)
                       (lon * (pi / 180) * k + x,
                        y - ln (tan ((pi / 2
                              + max (MIN_PHI c) (min (lat * (pi / 180)) (MAX_PHI c))) / 2)) * k)
                else (lon * (pi / 180) * k + x,
                      y - ln (tan ((pi / 2
                            + max (MIN_PHI c) (min (lat * (pi / 180)) (MAX_PHI c))) / 2)) * k))"
    unfolding project_dbl_exact [OF c kb(2) k m i(1,2)] project_rot [OF c]
      mercator_def clamp_phi_def by (rule refl)
  have u: "unproject_dbl (viewport_of x y k r w h) (Fin a, Fin b) inc
           = (let q = (if inc \<and> r \<noteq> 0 then rot (- r) (w * 0.5) (h * 0.5) (a, b) else (a, b))
              in (Fin ((fst q - x) / k * (180 / pi)),
                  Fin ((2 * arctan (exp (max (- pi) (min ((y - snd q) / k) pi))) - pi / 2)
                        * (180 / pi))))"
  proof -
    have "unproject_dbl (viewport_of x y k r w h) (Fin a, Fin b) inc
            = unproject (viewport_of x y k r w h) (Fin a, Fin b) inc"
      by (rule unproject_dbl_exact [OF k1(1,2) m i(3,4)])
    also have "\<dots> = unproject (viewport_of x y k r w h) (to_point (a, b)) inc"
      by (simp add: to_point_def)
    finally show ?thesis
      unfolding unproject_rot [OF k1(3)] inv_mercator_def .
  qed
  have fp: "finite_num (fst (project_dbl c (viewport_of x y k r w h) (Fin lon, Fin lat) inc))"
    "finite_num (snd (project_dbl c (viewport_of x y k r w h) (Fin lon, Fin lat) inc))"
    unfolding p by (simp_all add: to_point_def)
  have fu: "finite_num (fst (unproject_dbl (viewport_of x y k r w h) (Fin a, Fin b) inc))"
    "finite_num (snd (unproject_dbl (viewport_of x y k r w h) (Fin a, Fin b) inc))"
    unfolding u by (simp_all add: Let_def)
  show ?thesis using p u fp fu by blast
qed

theorem project_unproject_finite_in_range_witness:
  "consts_ok std_consts \<and> 1 \<le> MIN_K std_consts \<and> MAX_K std_consts \<le> 10 ^ 10
   \<and> MIN_K std_consts \<le> 256 / pi \<and> 256 / pi \<le> MAX_K std_consts
   \<and> moderate 20 \<and> moderate 30 \<and> moderate 800 \<and> moderate 600
   \<and> moderate 180 \<and> moderate 90 \<and> moderate 256 \<and> moderate 100000
   \<and> finite_num (fst (project_dbl std_consts (viewport_of 20 30 (256 / pi) 1 800 600)
                         (Fin 180, Fin 90) True))
   \<and> finite_num (snd (project_dbl std_consts (viewport_of 20 30 (256 / pi) 1 800 600)
                         (Fin 180, Fin 90) True))
   \<and> unproject_dbl (viewport_of 20 30 (256 / pi) 1 800 600) (Fin 256, Fin 100000) False
       = (Fin 165.9375, Fin ((2 * arctan (exp (- pi)) - pi / 2) * (180 / pi)))"
proof -
  note t = project_unproject_finite_in_range [OF std_consts_ok std_consts_scale_bounds
      default_scale_in_range moderate_examples, where r = 1 and inc = False]
  note f = project_unproject_finite_in_range [OF std_consts_ok std_consts_scale_bounds
      default_scale_in_range moderate_examples, where r = 1 and inc = True]
  have q: "(30 - 100000) / (256 / pi) \<le> - pi"
  proof -
    have "1 * pi \<le> 99970 / 256 * pi" by (intro mult_right_mono) simp_all
    then show ?thesis by simp
  qed
  have mm: "max (- pi) (min ((30 - 100000) / (256 / pi)) pi) = - pi"
    using q pi_gt_zero by linarith
  have xv: "(256 - 20) / (256 / pi) * (180 / pi) = (165.9375::real)"
    by simp
  have "unproject_dbl (viewport_of 20 30 (256 / pi) 1 800 600) (Fin 256, Fin 100000) False
       = (Fin ((256 - 20) / (256 / pi) * (180 / pi)),
          Fin ((2 * arctan (exp (max (- pi) (min ((30 - 100000) / (256 / pi)) pi))) - pi / 2)
                * (180 / pi)))"
    using conjunct1 [OF conjunct2 [OF t]]
    by (simp only: Let_def simp_thms if_False fst_conv snd_conv)
  then have u: "unproject_dbl (viewport_of 20 30 (256 / pi) 1 800 600) (Fin 256, Fin 100000) False
       = (Fin 165.9375, Fin ((2 * arctan (exp (- pi)) - pi / 2) * (180 / pi)))"
    unfolding mm xv .
  have fp: "finite_num (fst (project_dbl std_consts (viewport_of 20 30 (256 / pi) 1 800 600)
                         (Fin 180, Fin 90) True))"
    "finite_num (snd (project_dbl std_consts (viewport_of 20 30 (256 / pi) 1 800 600)
                         (Fin 180, Fin 90) True))"
    using conjunct2 [OF conjunct2 [OF f]] by (rule conjunct1, rule conjunct1 [OF conjunct2])
  show ?thesis
    by (intro conjI std_consts_ok std_consts_scale_bounds default_scale_in_range
        moderate_examples fp u)
qed




lemma legacy_project_north_pole:
  "snd (Projection_project (Projection_new None None None) (Fin l, Fin 90))
     = Fin (- (ln 16331239353195370 * (256 / pi)))"
  by (simp add: Projection_project_def Projection_new_def or_default_def Math_PI_def)

text \<open>
  C10. The legacy \<open>Projection.project\<close> has no latitude clamp: at latitude -90 degrees the
  tangent is 0, its logarithm is -Infinity, and the y component is not finite whatever
  the state of the Projection (it is +Infinity for the default Projection), where
  \<open>Viewport.project\<close> of a Viewport in a reachable state returns a finite point for the
  same input. (At +90 degrees the argument of the tangent is the double nearest to
  \<open>\<pi>/2\<close>, the tangent is 16331239353195370, and the y component is finite:
  \<open>legacy_project_north_pole\<close>.)
\<close>

theorem legacy_project_south_pole:
  assumes c: "consts_ok c" and v: "valid_viewport c vp"
  shows "\<not> finite_num (snd (Projection_project p (lon, Fin (- 90))))
       \<and> snd (Projection_project (Projection_new None None None) (Fin l, Fin (- 90))) = PInf
       \<and> finite_num (fst (project c vp (Fin l, Fin (- 90)) inc))
       \<and> finite_num (snd (project c vp (Fin l, Fin (- 90)) inc))"
proof -
  obtain x y k r w h where vp: "vp = viewport_of x y k r w h"
    using v unfolding valid_viewport_iff by blast
  have m: "Math_log (Math_tan (((Math_PI / Fin 2) + (Fin (- 90) * Math_PI) / Fin 180) / Fin 2)) = NInf"
    by (simp add: Math_PI_def)
  have 1: "\<not> finite_num (snd (Projection_project p (lon, Fin (- 90))))"
    using m by (simp add: Projection_project_def minus_not_finite NInf_times_not_finite)
  have 2: "snd (Projection_project (Projection_new None None None) (Fin l, Fin (- 90))) = PInf"
    using m by (simp add: Projection_project_def Projection_new_def or_default_def
        Math_PI_def minus_num_def)
  show ?thesis
    using 1 2 unfolding vp by (simp add: project_rot [OF c])
qed

theorem legacy_project_south_pole_witness:
  "consts_ok std_consts
   \<and> valid_viewport std_consts (viewport_of 20 30 (256 / pi) 1 800 600)
   \<and> \<not> finite_num (snd (Projection_project (Projection_new None None None) (Fin 0, Fin (- 90))))
   \<and> finite_num (snd (project std_consts (viewport_of 20 30 (256 / pi) 1 800 600)
                        (Fin 0, Fin (- 90)) False))"
  using legacy_project_south_pole [OF std_consts_ok valid_viewport_example,
      of "Projection_new None None None" "Fin 0" 0 False]
    std_consts_ok valid_viewport_example
  by blast

text \<open>
  C8. With the default Viewport (scale \<open>256/\<pi>\<close>, no translation, no rotation) and latitude
  bounds at the Mercator extremes, \<open>project([0,0])\<close> is \<open>[0,0]\<close>;
  \<open>project([180, -85.0511287798])\<close> is within \<open>1e-6\<close> of \<open>[256, 256]\<close>;
  \<open>project([-180, 85.0511287798])\<close> is within \<open>1e-6\<close> of \<open>[-256, -256]\<close>; and
  \<open>unproject([256,256])\<close> is within \<open>1e-6\<close> of \<open>[180, -85.0511287798]\<close>.
\<close>

theorem default_viewport_extremes:
  assumes c: "consts_ok c"
    and lo: "MIN_PHI c = 2 * arctan (exp (- pi)) - pi / 2"
    and hi: "MAX_PHI c = 2 * arctan (exp pi) - pi / 2"
  shows "project c (Viewport_new c None None) (Fin 0, Fin 0) inc = (Fin 0, Fin 0)
       \<and> (\<exists>px py. project c (Viewport_new c None None) (Fin 180, Fin (- 85.0511287798)) inc
                     = (Fin px, Fin py)
                 \<and> \<bar>px - 256\<bar> \<le> 1 / 1000000 \<and> \<bar>py - 256\<bar> \<le> 1 / 1000000)
       \<and> (\<exists>px py. project c (Viewport_new c None None) (Fin (- 180), Fin 85.0511287798) inc
                     = (Fin px, Fin py)
                 \<and> \<bar>px + 256\<bar> \<le> 1 / 1000000 \<and> \<bar>py + 256\<bar> \<le> 1 / 1000000)
       \<and> (\<exists>lon lat. unproject (Viewport_new c None None) (Fin 256, Fin 256) inc
                     = (Fin lon, Fin lat)
                 \<and> \<bar>lon - 180\<bar> \<le> 1 / 1000000 \<and> \<bar>lat + 85.0511287798\<bar> \<le> 1 / 1000000)"
proof -
  define m where "m = mercator (clamp_phi c (- (850511287798 / 10000000000)))"
  note s = mercator_south_extreme [OF lo hi]
  have mb: "- pi \<le> m" "m \<le> - pi + pixel_eps"
    unfolding m_def using s(1,2) .
  note off = pixel_offset [OF mb]
  have mn: "mercator (clamp_phi c (850511287798 / 10000000000)) = - m"
    unfolding m_def clamp_phi_south(2) [OF lo hi] using s(3,4) by (rule mercator_neg)
  have z: "clamp_phi c 0 = 0"
    using c by (simp add: clamp_phi_def consts_ok_def lo hi arctan_exp_pi)
  have v: "Viewport_new c None None = viewport_of 0 0 (256 / pi) 0 0 0"
    using c by (rule default_viewport_empty)
  have 1: "project c (Viewport_new c None None) (Fin 0, Fin 0) inc = (Fin 0, Fin 0)"
    unfolding v project_default [OF c] z mercator_zero by simp
  have 2: "project c (Viewport_new c None None) (Fin 180, Fin (- 85.0511287798)) inc
             = (Fin 256, Fin (- (m * (256 / pi))))"
    unfolding v project_default [OF c] south_extreme_literal m_def by simp
  have b2: "\<bar>- (m * (256 / pi)) - 256\<bar> \<le> 1 / 1000000"
    by (rule off(1))
  have 3: "project c (Viewport_new c None None) (Fin (- 180), Fin 85.0511287798) inc
             = (Fin (- 256), Fin (m * (256 / pi)))"
  proof -
    have "(85.0511287798 :: real) = 850511287798 / 10000000000" by simp
    then show ?thesis
      unfolding v project_default [OF c] using mn by simp
  qed
  have b3: "\<bar>m * (256 / pi) + 256\<bar> \<le> 1 / 1000000"
    by (rule off(2))
  have "(0 - 256) / (256 / pi) \<le> - pi" by simp
  then have "inv_mercator ((0 - 256) / (256 / pi)) * (180 / pi) = min_latitude"
    by (rule inv_mercator_low)
  then have 4: "unproject (Viewport_new c None None) (Fin 256, Fin 256) inc
             = (Fin 180, Fin min_latitude)"
    unfolding v by (simp add: unproject_unrotated)
  have b4: "\<bar>min_latitude + 85.0511287798\<bar> \<le> 1 / 1000000"
  proof -
    have e: "(85.0511287798 :: real) = 850511287798 / 10000000000" by simp
    show ?thesis
      unfolding e abs_le_iff using min_latitude_value by linarith
  qed
  show ?thesis
    using 1 2 b2 3 b3 4 b4 by simp
qed

theorem default_viewport_extremes_witness:
  "consts_ok std_consts
   \<and> MIN_PHI std_consts = 2 * arctan (exp (- pi)) - pi / 2
   \<and> MAX_PHI std_consts = 2 * arctan (exp pi) - pi / 2
   \<and> project std_consts (Viewport_new std_consts None None) (Fin 0, Fin 0) False = (Fin 0, Fin 0)
   \<and> (\<exists>px py. project std_consts (Viewport_new std_consts None None)
                   (Fin 180, Fin (- 85.0511287798)) False = (Fin px, Fin py)
               \<and> \<bar>px - 256\<bar> \<le> 1 / 1000000 \<and> \<bar>py - 256\<bar> \<le> 1 / 1000000)"
proof -
  have lo: "MIN_PHI std_consts = 2 * arctan (exp (- pi)) - pi / 2"
    by (simp add: std_consts_def)
  have hi: "MAX_PHI std_consts = 2 * arctan (exp pi) - pi / 2"
    by (simp add: std_consts_def)
  show ?thesis
    using default_viewport_extremes [OF std_consts_ok lo hi, of False] std_consts_ok lo hi
    by blast
qed


section \<open>The visible region\<close>

lemma abs_sin_cos_squared:
  fixes r :: real
  shows "\<bar>sin r\<bar> * \<bar>sin r\<bar> + \<bar>cos r\<bar> * \<bar>cos r\<bar> = 1"
proof -
  have "\<bar>sin r\<bar> * \<bar>sin r\<bar> = sin r * sin r" "\<bar>cos r\<bar> * \<bar>cos r\<bar> = cos r * cos r"
    by (simp_all add: abs_mult_self_eq)
  then show ?thesis
    using sin_cos_squared_add [of r] by (simp add: power2_eq_square)
qed

lemma sqrt_of_square_sum:
  fixes a b d :: real
  assumes "a\<^sup>2 + b\<^sup>2 = d\<^sup>2" "0 \<le> d"
  shows "sqrt (a\<^sup>2 + b\<^sup>2) = d"
  using assms by simp

lemma rotated_side:
  fixes w h s c :: real
  assumes sc: "s * s + c * c = 1" and nn: "0 \<le> w" "0 \<le> h" "0 \<le> s" "0 \<le> c"
  shows "sqrt ((w + h * c * s - w * s * s)\<^sup>2 + (h - h * c * c - - (w * s * c))\<^sup>2) = w * c + h * s"
    and "sqrt ((- (h * c * s) - w * s * s)\<^sup>2 + (h * c * c - - (w * s * c))\<^sup>2) = h * c + w * s"
    and "sqrt ((w - w * s * s - - (h * c * s))\<^sup>2 + (h + w * s * c - h * c * c)\<^sup>2) = w * c + h * s"
    and "sqrt ((w + h * c * s - (w - w * s * s))\<^sup>2 + (h - h * c * c - (h + w * s * c))\<^sup>2) = h * c + w * s"
proof -
  have p1: "0 \<le> w * c + h * s" using nn by simp
  have p2: "0 \<le> h * c + w * s" using nn by simp
  have "(w + h * c * s - w * s * s)\<^sup>2 + (h - h * c * c - - (w * s * c))\<^sup>2 = (w * c + h * s)\<^sup>2"
    using sc by algebra
  then show "sqrt ((w + h * c * s - w * s * s)\<^sup>2 + (h - h * c * c - - (w * s * c))\<^sup>2) = w * c + h * s"
    using p1 by (rule sqrt_of_square_sum)
  have "(- (h * c * s) - w * s * s)\<^sup>2 + (h * c * c - - (w * s * c))\<^sup>2 = (h * c + w * s)\<^sup>2"
    using sc by algebra
  then show "sqrt ((- (h * c * s) - w * s * s)\<^sup>2 + (h * c * c - - (w * s * c))\<^sup>2) = h * c + w * s"
    using p2 by (rule sqrt_of_square_sum)
  have "(w - w * s * s - - (h * c * s))\<^sup>2 + (h + w * s * c - h * c * c)\<^sup>2 = (w * c + h * s)\<^sup>2"
    using sc by algebra
  then show "sqrt ((w - w * s * s - - (h * c * s))\<^sup>2 + (h + w * s * c - h * c * c)\<^sup>2) = w * c + h * s"
    using p1 by (rule sqrt_of_square_sum)
  have "(w + h * c * s - (w - w * s * s))\<^sup>2 + (h - h * c * c - (h + w * s * c))\<^sup>2 = (h * c + w * s)\<^sup>2"
    using sc by algebra
  then show "sqrt ((w + h * c * s - (w - w * s * s))\<^sup>2 + (h - h * c * c - (h + w * s * c))\<^sup>2) = h * c + w * s"
    using p2 by (rule sqrt_of_square_sum)
qed

lemma visiblePolygon_rotated:
  assumes "r \<noteq> 0"
  shows "visiblePolygon (viewport_of x y k r w h) =
     [(Fin (w * \<bar>sin r\<bar> * \<bar>sin r\<bar>), Fin (- (w * \<bar>sin r\<bar> * \<bar>cos r\<bar>))),
      (Fin (- (h * \<bar>cos r\<bar> * \<bar>sin r\<bar>)), Fin (h * \<bar>cos r\<bar> * \<bar>cos r\<bar>)),
      (Fin (w - w * \<bar>sin r\<bar> * \<bar>sin r\<bar>), Fin (h + w * \<bar>sin r\<bar> * \<bar>cos r\<bar>)),
      (Fin (w + h * \<bar>cos r\<bar> * \<bar>sin r\<bar>), Fin (h - h * \<bar>cos r\<bar> * \<bar>cos r\<bar>)),
      (Fin (w * \<bar>sin r\<bar> * \<bar>sin r\<bar>), Fin (- (w * \<bar>sin r\<bar> * \<bar>cos r\<bar>)))]"
  using assms by (simp add: visiblePolygon_def viewport_of_def Let_def)

lemma visibleDimensions_rotated:
  assumes "r \<noteq> 0"
  shows "visibleDimensions (viewport_of x y k r w h) =
     vecCeil (Fin (w * \<bar>cos r\<bar> + h * \<bar>sin r\<bar>), Fin (h * \<bar>cos r\<bar> + w * \<bar>sin r\<bar>))"
  using assms by (simp add: visibleDimensions_def viewport_of_def Let_def)

text \<open>
  C1, amended. For dimensions \<open>[w, h]\<close> with \<open>w, h \<ge> 0\<close> and a rotation \<open>r \<noteq> 0\<close>,
  \<open>visiblePolygon\<close> returns a closed ring \<open>[E, F, G, H, E]\<close> and \<open>visibleDimensions\<close>
  returns, ceiling-rounded, the lengths of its sides \<open>EH\<close> (equal to \<open>FG\<close>) and \<open>EF\<close>
  (equal to \<open>GH\<close>); for \<open>r = 0\<close>, \<open>visibleDimensions\<close> returns \<open>[w, h]\<close>.
\<close>

theorem visibleDimensions_side_lengths:
  assumes nn: "0 \<le> w" "0 \<le> h"
  shows "(r \<noteq> 0 \<longrightarrow>
            (\<exists>E F G H. visiblePolygon (viewport_of x y k r w h) = [E, F, G, H, E]
               \<and> visibleDimensions (viewport_of x y k r w h)
                   = vecCeil (side_length E H, side_length E F)
               \<and> side_length E H = Fin (w * \<bar>cos r\<bar> + h * \<bar>sin r\<bar>)
               \<and> side_length E F = Fin (h * \<bar>cos r\<bar> + w * \<bar>sin r\<bar>)
               \<and> side_length F G = side_length E H
               \<and> side_length G H = side_length E F))
       \<and> (r = 0 \<longrightarrow> visibleDimensions (viewport_of x y k r w h) = (Fin w, Fin h))"
proof (intro conjI impI)
  assume r: "r \<noteq> 0"
  define s where "s = \<bar>sin r\<bar>"
  define c where "c = \<bar>cos r\<bar>"
  have sc: "s * s + c * c = 1" unfolding s_def c_def by (rule abs_sin_cos_squared)
  have n: "0 \<le> s" "0 \<le> c" by (simp_all add: s_def c_def)
  note sides = rotated_side [OF sc nn n]
  show "\<exists>E F G H. visiblePolygon (viewport_of x y k r w h) = [E, F, G, H, E]
               \<and> visibleDimensions (viewport_of x y k r w h)
                   = vecCeil (side_length E H, side_length E F)
               \<and> side_length E H = Fin (w * \<bar>cos r\<bar> + h * \<bar>sin r\<bar>)
               \<and> side_length E F = Fin (h * \<bar>cos r\<bar> + w * \<bar>sin r\<bar>)
               \<and> side_length F G = side_length E H
               \<and> side_length G H = side_length E F"
    unfolding visiblePolygon_rotated [OF r] visibleDimensions_rotated [OF r]
    apply (intro exI conjI)
       apply (rule refl)
    unfolding s_def [symmetric] c_def [symmetric] side_length.simps sides
      apply (rule refl)+
    done
next
  assume "r = 0"
  then show "visibleDimensions (viewport_of x y k r w h) = (Fin w, Fin h)"
    by (simp add: visibleDimensions_def viewport_of_def)
qed


theorem visibleDimensions_side_lengths_witness:
  "(0::real) \<le> 800 \<and> (0::real) \<le> 600
   \<and> (\<exists>E F G H. visiblePolygon (viewport_of 0 0 (256 / pi) (pi / 2) 800 600) = [E, F, G, H, E]
         \<and> visibleDimensions (viewport_of 0 0 (256 / pi) (pi / 2) 800 600)
             = vecCeil (side_length E H, side_length E F))
   \<and> visibleDimensions (viewport_of 0 0 (256 / pi) 0 800 600) = (Fin 800, Fin 600)"
proof -
  have n: "(0::real) \<le> 800" "(0::real) \<le> 600" by simp_all
  have p: "pi / 2 \<noteq> 0" by simp
  have "\<exists>E F G H. visiblePolygon (viewport_of 0 0 (256 / pi) (pi / 2) 800 600) = [E, F, G, H, E]
         \<and> visibleDimensions (viewport_of 0 0 (256 / pi) (pi / 2) 800 600)
             = vecCeil (side_length E H, side_length E F)"
    using visibleDimensions_side_lengths
      [OF n, where r = "pi / 2" and x = 0 and y = 0 and k = "256 / pi"] p
    by blast
  moreover have "visibleDimensions (viewport_of 0 0 (256 / pi) 0 800 600) = (Fin 800, Fin 600)"
    using visibleDimensions_side_lengths
      [OF n, where r = 0 and x = 0 and y = 0 and k = "256 / pi"]
    by simp
  ultimately show ?thesis by simp
qed

text \<open>
  C1, as stated, fails: rotated by \<open>\<pi>/2\<close>, an 800 by 600 Viewport has a visible polygon
  whose axis-aligned bounding box is 800 by 600, and visible dimensions 600 by 800.
\<close>

theorem visiblePolygon_bounding_box_counterexample:
  "bounding_box (visiblePolygon (viewport_of 0 0 (256 / pi) (pi / 2) 800 600)) = (Fin 800, Fin 600)
   \<and> visibleDimensions (viewport_of 0 0 (256 / pi) (pi / 2) 800 600) = (Fin 600, Fin 800)
   \<and> bounding_box (visiblePolygon (viewport_of 0 0 (256 / pi) (pi / 2) 800 600))
       \<noteq> visibleDimensions (viewport_of 0 0 (256 / pi) (pi / 2) 800 600)"
  by (simp add: visiblePolygon_def visibleDimensions_def viewport_of_def bounding_box_def
      Extent_new_def extendSelf_def vecCeil_def Let_def)

text \<open>
  Without rotation the fourth vertex is \<open>[0, w]\<close>, so that the bounding box of the ring of
  an 800 by 600 Viewport is 800 by 800.
\<close>

lemma visiblePolygon_unrotated_bounding_box:
  "visiblePolygon (viewport_of 0 0 (256 / pi) 0 800 600)
     = [(Fin 0, Fin 0), (Fin 0, Fin 600), (Fin 800, Fin 600), (Fin 0, Fin 800), (Fin 0, Fin 0)]
   \<and> bounding_box (visiblePolygon (viewport_of 0 0 (256 / pi) 0 800 600)) = (Fin 800, Fin 800)"
  by (simp add: visiblePolygon_def viewport_of_def bounding_box_def
      Extent_new_def extendSelf_def Let_def)

lemma default_viewport:
  assumes "consts_ok c"
  shows "Viewport_new c None (Some (Fin w, Fin h)) = viewport_of 0 0 (256 / pi) 0 w h"
  using assms
  by (simp add: Viewport_new_def viewport_of_def or_default_def Math_PI_def consts_ok_def)

lemma unproject_corners:
  "unproject (viewport_of 0 0 (256 / pi) 0 800 600) (Fin 0, Fin 0) inc = (Fin 0, Fin 0)"
  "unproject (viewport_of 0 0 (256 / pi) 0 800 600) (Fin 0, Fin 600) inc
     = (Fin 0, Fin min_latitude)"
  "unproject (viewport_of 0 0 (256 / pi) 0 800 600) (Fin 800, Fin 600) inc
     = (Fin (1125 / 2), Fin min_latitude)"
  "unproject (viewport_of 0 0 (256 / pi) 0 800 600) (Fin 0, Fin 800) inc
     = (Fin 0, Fin min_latitude)"
proof -
  have a: "(0 - 600) / (256 / pi) \<le> - pi" "(0 - 800) / (256 / pi) \<le> - pi"
    by (simp_all add: field_simps)
  show "unproject (viewport_of 0 0 (256 / pi) 0 800 600) (Fin 0, Fin 0) inc = (Fin 0, Fin 0)"
    by (simp add: unproject_unrotated inv_mercator_zero)
  show "unproject (viewport_of 0 0 (256 / pi) 0 800 600) (Fin 0, Fin 600) inc
     = (Fin 0, Fin min_latitude)"
    using inv_mercator_low [OF a(1)] by (simp add: unproject_unrotated)
  show "unproject (viewport_of 0 0 (256 / pi) 0 800 600) (Fin 800, Fin 600) inc
     = (Fin (1125 / 2), Fin min_latitude)"
    using inv_mercator_low [OF a(1)] by (simp add: unproject_unrotated)
  show "unproject (viewport_of 0 0 (256 / pi) 0 800 600) (Fin 0, Fin 800) inc
     = (Fin 0, Fin min_latitude)"
    using inv_mercator_low [OF a(2)] by (simp add: unproject_unrotated)
qed

lemma extent_default:
  "extent (viewport_of 0 0 (256 / pi) 0 800 600)
     = \<lparr> e_min = (Fin 0, Fin min_latitude),
         e_max = (Fin (1125 / 2), Fin 0) \<rparr>"
proof -
  have p: "visiblePolygon (viewport_of 0 0 (256 / pi) 0 800 600)
     = [(Fin 0, Fin 0), (Fin 0, Fin 600), (Fin 800, Fin 600), (Fin 0, Fin 800), (Fin 0, Fin 0)]"
    by (simp add: visiblePolygon_def viewport_of_def Let_def)
  note l = min_latitude_negative
  show ?thesis
    unfolding extent_def Let_def p
    using l by (simp add: unproject_corners Extent_new_def extendSelf_def min_def max_def)
qed

text \<open>
  C2, amended. For the Viewport with dimensions \<open>[800, 600]\<close>, scale \<open>256/\<pi>\<close>, no rotation
  and no translation (the Viewport constructed with these dimensions and no transform),
  \<open>extent\<close> is the box spanned by \<open>unproject([0,0])\<close> and \<open>unproject([800,600])\<close>: its min
  corner has the longitude of the first and the latitude of the second, its max corner
  the longitude of the second and the latitude of the first.
\<close>

theorem extent_spans_corners:
  "e_min (extent (viewport_of 0 0 (256 / pi) 0 800 600))
     = (fst (unproject (viewport_of 0 0 (256 / pi) 0 800 600) (Fin 0, Fin 0) False),
        snd (unproject (viewport_of 0 0 (256 / pi) 0 800 600) (Fin 800, Fin 600) False))
   \<and> e_max (extent (viewport_of 0 0 (256 / pi) 0 800 600))
     = (fst (unproject (viewport_of 0 0 (256 / pi) 0 800 600) (Fin 800, Fin 600) False),
        snd (unproject (viewport_of 0 0 (256 / pi) 0 800 600) (Fin 0, Fin 0) False))
   \<and> Viewport_new std_consts None (Some (Fin 800, Fin 600))
     = viewport_of 0 0 (256 / pi) 0 800 600"
  by (simp add: extent_default unproject_corners default_viewport [OF std_consts_ok])

text \<open>
  C2, as stated, fails: the screen Y axis points down, so the min corner of the extent is
  not \<open>unproject([0,0])\<close> and the max corner is not \<open>unproject([800,600])\<close>.
\<close>

theorem extent_corners_counterexample:
  "e_min (extent (viewport_of 0 0 (256 / pi) 0 800 600))
     \<noteq> unproject (viewport_of 0 0 (256 / pi) 0 800 600) (Fin 0, Fin 0) False
   \<and> e_max (extent (viewport_of 0 0 (256 / pi) 0 800 600))
     \<noteq> unproject (viewport_of 0 0 (256 / pi) 0 800 600) (Fin 800, Fin 600) False"
  using min_latitude_negative
  by (simp add: extent_default unproject_corners)

end
